theory Spec2Isabelle
  imports Complex_Main "HOL-Library.Multiset"
begin

section \<open>Data model of \<open>activity_monitor.py\<close>\<close>

text \<open>
  A \<open>datetime\<close> value as the detector uses it. The fields year, month, day, hour and minute
  are kept together as the number of whole minutes since a fixed epoch; second and
  microsecond are separate fields, so that \<open>timestamp.replace(second=0, microsecond=0)\<close>
  is the update of exactly these two fields.
\<close>

record datetime =
  dt_minutes :: int
  dt_second :: nat
  dt_microsecond :: nat

definition replace_second_microsecond :: "datetime \<Rightarrow> datetime" where
  "replace_second_microsecond t = t\<lparr>dt_second := 0, dt_microsecond := 0\<rparr>"

text \<open>The instant of a \<open>datetime\<close> in microseconds.\<close>

definition microseconds :: "datetime \<Rightarrow> int" where
  "microseconds t = (dt_minutes t * 60 + int (dt_second t)) * 1000000 + int (dt_microsecond t)"

text \<open>
  \<open>(time_a - time_b).total_seconds()\<close>: the difference of the two instants, in seconds.
  Python returns the float nearest to this quotient; the comparison with \<open>300\<close> below is
  the same on the exact quotient, because 300 is a float and the rounding is monotone.
\<close>

definition total_seconds :: "datetime \<Rightarrow> datetime \<Rightarrow> real" where
  "total_seconds time_a time_b = real_of_int (microseconds time_a - microseconds time_b) / 1000000"

text \<open>
  A row of \<open>whale_transactions\<close> as \<open>get_recent_whale_activity\<close> selects it: the 7-tuple
  \<open>(wallet_address, coin_symbol, activity_type, amount_tokens, amount_usd, block_timestamp,
  transaction_id)\<close>. Amounts are real numbers: the rounding of \<open>float(usd)\<close> and of float
  addition is not modelled.
\<close>

record activity =
  wallet_address :: string
  coin_symbol :: string
  activity_type :: string
  amount_tokens :: real
  amount_usd :: real
  block_timestamp :: datetime
  transaction_id :: string

text \<open>The dictionary appended to a bucket for each activity.\<close>

record bucket_entry =
  wallet :: string
  atype :: string
  usd_amount :: real
  timestamp :: datetime
  tx_id :: string

datatype alert_kind = POTENTIAL_PUMP | POTENTIAL_DUMP

record alert =
  alert_type :: alert_kind
  token :: string
  alert_time :: datetime
  whale_count :: nat
  total_volume :: real
  activities :: "bucket_entry list"
  confidence :: real

datatype suspicion = HIGH | MEDIUM

record correlation =
  wallet_a :: string
  wallet_b :: string
  common_tokens :: "string list"
  time_correlations :: nat
  correlation_score :: real
  suspicion_level :: suspicion

section \<open>Configuration constants\<close>

definition SCAN_INTERVAL :: nat where
  "SCAN_INTERVAL = 60"

definition COORDINATION_THRESHOLD :: nat where
  "COORDINATION_THRESHOLD = 3"

definition TIME_WINDOW_MINUTES :: nat where
  "TIME_WINDOW_MINUTES = 15"

text \<open>\<open>PUMP_INDICATORS['rapid_buys']\<close> and \<open>DUMP_INDICATORS['rapid_sells']\<close>.\<close>

definition rapid_buys :: nat where
  "rapid_buys = 5"

definition rapid_sells :: nat where
  "rapid_sells = 4"

section \<open>Dictionaries in insertion order\<close>

text \<open>
  A Python \<open>dict\<close> iterates in insertion order, so a \<open>defaultdict\<close> is an association list
  with distinct keys. \<open>dd_update k d f m\<close> is \<open>m[k] = f(m[k])\<close> on a \<open>defaultdict\<close> whose
  factory returns \<open>d\<close>: an existing key keeps its place, a new key goes to the end.
\<close>

fun dd_update :: "'k \<Rightarrow> 'v \<Rightarrow> ('v \<Rightarrow> 'v) \<Rightarrow> ('k \<times> 'v) list \<Rightarrow> ('k \<times> 'v) list" where
  "dd_update k d f [] = [(k, f d)]"
| "dd_update k d f ((k', v) # kvs) =
     (if k' = k then (k', f v) # kvs else (k', v) # dd_update k d f kvs)"

section \<open>\<open>detect_coordination_patterns\<close>\<close>

definition time_bucket_of :: "activity \<Rightarrow> datetime" where
  "time_bucket_of a = replace_second_microsecond (block_timestamp a)"

definition entry_of :: "activity \<Rightarrow> bucket_entry" where
  "entry_of a =
     \<lparr>wallet = wallet_address a, atype = activity_type a, usd_amount = amount_usd a,
      timestamp = block_timestamp a, tx_id = transaction_id a\<rparr>"

type_synonym token_map = "(string \<times> (datetime \<times> bucket_entry list) list) list"

text \<open>One pass of the grouping loop: \<open>token_activities[token][time_bucket].append({...})\<close>.\<close>

definition add_activity :: "activity \<Rightarrow> token_map \<Rightarrow> token_map" where
  "add_activity a m =
     dd_update (coin_symbol a) []
       (dd_update (time_bucket_of a) [] (\<lambda>l. l @ [entry_of a])) m"

definition token_activities :: "activity list \<Rightarrow> token_map" where
  "token_activities acts = fold add_activity acts []"

definition buy_activities :: "bucket_entry list \<Rightarrow> bucket_entry list" where
  "buy_activities activities_in_bucket =
     filter (\<lambda>a. atype a \<in> set [''buy'', ''transfer'']) activities_in_bucket"

definition sell_activities :: "bucket_entry list \<Rightarrow> bucket_entry list" where
  "sell_activities activities_in_bucket =
     filter (\<lambda>a. atype a = ''sell'') activities_in_bucket"

text \<open>\<open>len(set(a['wallet'] for a in xs))\<close>.\<close>

definition unique_wallets :: "bucket_entry list \<Rightarrow> nat" where
  "unique_wallets xs = length (remdups (map wallet xs))"

definition pump_alert :: "string \<Rightarrow> datetime \<Rightarrow> bucket_entry list \<Rightarrow> alert" where
  "pump_alert tok time_bucket buys =
     \<lparr>alert_type = POTENTIAL_PUMP, token = tok, alert_time = time_bucket,
      whale_count = unique_wallets buys,
      total_volume = sum_list (map usd_amount buys),
      activities = buys,
      confidence = min (real (unique_wallets buys) / real rapid_buys) 1\<rparr>"

definition dump_alert :: "string \<Rightarrow> datetime \<Rightarrow> bucket_entry list \<Rightarrow> alert" where
  "dump_alert tok time_bucket sells =
     \<lparr>alert_type = POTENTIAL_DUMP, token = tok, alert_time = time_bucket,
      whale_count = unique_wallets sells,
      total_volume = sum_list (map usd_amount sells),
      activities = sells,
      confidence = min (real (unique_wallets sells) / real rapid_sells) 1\<rparr>"

text \<open>The body of the inner loop: the alerts appended for one bucket of one token.\<close>

definition bucket_alerts :: "string \<Rightarrow> datetime \<times> bucket_entry list \<Rightarrow> alert list" where
  "bucket_alerts tok b =
     (case b of (time_bucket, activities_in_bucket) \<Rightarrow>
        if length activities_in_bucket \<ge> COORDINATION_THRESHOLD then
          (if length (buy_activities activities_in_bucket) \<ge> rapid_buys
           then [pump_alert tok time_bucket (buy_activities activities_in_bucket)] else []) @
          (if length (sell_activities activities_in_bucket) \<ge> rapid_sells
           then [dump_alert tok time_bucket (sell_activities activities_in_bucket)] else [])
        else [])"

text \<open>
  The two nested loops over \<open>token_activities.items()\<close> and \<open>time_buckets.items()\<close> only
  append to \<open>coordination_alerts\<close>, so the result is the concatenation in iteration order.
\<close>

definition token_alerts :: "string \<times> (datetime \<times> bucket_entry list) list \<Rightarrow> alert list" where
  "token_alerts tb = (case tb of (tok, time_buckets) \<Rightarrow> concat (map (bucket_alerts tok) time_buckets))"

definition detect_coordination_patterns :: "activity list \<Rightarrow> alert list" where
  "detect_coordination_patterns acts =
     (if acts = [] then [] else concat (map token_alerts (token_activities acts)))"

text \<open>The list stored under a token and a time bucket (empty when there is none).\<close>

definition bucket_lookup :: "token_map \<Rightarrow> string \<Rightarrow> datetime \<Rightarrow> bucket_entry list" where
  "bucket_lookup m tok tb =
     (case map_of m tok of None \<Rightarrow> []
      | Some tbs \<Rightarrow> (case map_of tbs tb of None \<Rightarrow> [] | Some es \<Rightarrow> es))"

text \<open>All bucketed entries with their keys, in iteration order.\<close>

definition bucket_items :: "token_map \<Rightarrow> (string \<times> datetime \<times> bucket_entry) list" where
  "bucket_items m =
     concat (map (\<lambda>(tok, tbs). concat (map (\<lambda>(tb, es). map (\<lambda>e. (tok, tb, e)) es) tbs)) m)"

definition bucket_keys :: "token_map \<Rightarrow> (string \<times> datetime) list" where
  "bucket_keys m = concat (map (\<lambda>(tok, tbs). map (Pair tok) (map fst tbs)) m)"

text \<open>The activities of the input that belong to the key \<open>(tok, tb)\<close>, in input order.\<close>

definition bucket_of :: "activity list \<Rightarrow> string \<Rightarrow> datetime \<Rightarrow> bucket_entry list" where
  "bucket_of acts tok tb =
     map entry_of (filter (\<lambda>a. coin_symbol a = tok \<and> time_bucket_of a = tb) acts)"

text \<open>
  The shape every dictionary built by the grouping loop has: distinct tokens, distinct
  buckets under each token, and no empty bucket.
\<close>

definition wf_token_map :: "token_map \<Rightarrow> bool" where
  "wf_token_map m \<longleftrightarrow>
     distinct (map fst m) \<and>
     (\<forall>tok tbs. (tok, tbs) \<in> set m \<longrightarrow>
        distinct (map fst tbs) \<and> (\<forall>tb es. (tb, es) \<in> set tbs \<longrightarrow> es \<noteq> []))"

text \<open>
  The input seen from outside the detector: the activities of one token in one minute,
  and the two kinds of activity the detector counts.
\<close>

definition group_of :: "activity list \<Rightarrow> string \<Rightarrow> datetime \<Rightarrow> activity list" where
  "group_of acts tok tb = filter (\<lambda>a. coin_symbol a = tok \<and> time_bucket_of a = tb) acts"

definition buy_like :: "activity \<Rightarrow> bool" where
  "buy_like a \<longleftrightarrow> activity_type a = ''buy'' \<or> activity_type a = ''transfer''"

definition sell_like :: "activity \<Rightarrow> bool" where
  "sell_like a \<longleftrightarrow> activity_type a = ''sell''"

section \<open>\<open>analyze_wallet_correlations\<close>\<close>

type_synonym wallet_map = "(string \<times> activity list) list"

text \<open>The grouping loop: \<open>wallet_activities[wallet].append(activity)\<close>.\<close>

definition add_wallet_activity :: "activity \<Rightarrow> wallet_map \<Rightarrow> wallet_map" where
  "add_wallet_activity a m = dd_update (wallet_address a) [] (\<lambda>l. l @ [a]) m"

definition wallet_activities :: "activity list \<Rightarrow> wallet_map" where
  "wallet_activities acts = fold add_wallet_activity acts []"

text \<open>
  A Python set of strings is a duplicate-free list here. \<open>tokens_of\<close> is
  \<open>set(activity[1] for activity in xs)\<close>, \<open>intersection\<close> is \<open>tokens_a.intersection(tokens_b)\<close>;
  \<open>len\<close> and \<open>in\<close> do not depend on the order of the list.
\<close>

definition tokens_of :: "activity list \<Rightarrow> string list" where
  "tokens_of xs = remdups (map coin_symbol xs)"

definition intersection :: "string list \<Rightarrow> string list \<Rightarrow> string list" where
  "intersection tokens_a tokens_b = filter (\<lambda>t. t \<in> set tokens_b) tokens_a"

text \<open>\<open>[activity[5] for activity in xs if activity[1] in common_tokens]\<close>.\<close>

definition times_in :: "string list \<Rightarrow> activity list \<Rightarrow> datetime list" where
  "times_in common xs = map block_timestamp (filter (\<lambda>a. coin_symbol a \<in> set common) xs)"

text \<open>The two nested loops that count the pairs of timestamps at most 300 seconds apart.\<close>

definition count_time_correlations :: "datetime list \<Rightarrow> datetime list \<Rightarrow> nat" where
  "count_time_correlations times_a times_b =
     sum_list (map (\<lambda>time_a.
        length (filter (\<lambda>time_b. \<bar>total_seconds time_a time_b\<bar> \<le> 300) times_b)) times_a)"

text \<open>
  The body of the loop over pairs of wallets: the correlations appended for one pair.
  \<open>list(common_tokens)\<close> lists a set of strings in an order that depends on the process's
  string hashing; \<open>set_order\<close> is that order. The score is compared with \<open>7/10\<close>: on
  quotients of list lengths below \<open>2^49\<close> the float comparison \<open>score > 0.7\<close> agrees with
  the exact one.
\<close>

definition pair_correlation ::
  "(string list \<Rightarrow> string list) \<Rightarrow> string \<times> activity list \<Rightarrow> string \<times> activity list
     \<Rightarrow> correlation list" where
  "pair_correlation set_order pa pb =
     (case pa of (wallet_a', activities_a) \<Rightarrow> case pb of (wallet_b', activities_b) \<Rightarrow>
        let common = intersection (tokens_of activities_a) (tokens_of activities_b) in
        if length common \<ge> 2 then
          let times_a = times_in common activities_a;
              times_b = times_in common activities_b;
              tc = count_time_correlations times_a times_b in
          if tc \<ge> 2 then
            let score = min (real tc / real (max (length times_a) (length times_b))) 1 in
            [\<lparr>wallet_a = wallet_a', wallet_b = wallet_b', common_tokens = set_order common,
              time_correlations = tc, correlation_score = score,
              suspicion_level = (if score > 7 / 10 then HIGH else MEDIUM)\<rparr>]
          else []
        else [])"

text \<open>
  \<open>for i in range(n): for j in range(i + 1, n)\<close>, over the items of the dictionary: its
  keys are distinct, so \<open>wallet_activities[wallet_list[i]]\<close> is the value of the i-th item.
\<close>

fun pairs :: "'a list \<Rightarrow> ('a \<times> 'a) list" where
  "pairs [] = []"
| "pairs (x # xs) = map (Pair x) xs @ pairs xs"

definition analyze_wallet_correlations ::
  "(string list \<Rightarrow> string list) \<Rightarrow> activity list \<Rightarrow> correlation list" where
  "analyze_wallet_correlations set_order acts =
     (if length acts < 2 then []
      else concat (map (\<lambda>(pa, pb). pair_correlation set_order pa pb)
             (pairs (wallet_activities acts))))"

text \<open>
  The input seen from outside the analyzer: the rows of a wallet, the tokens two wallets
  share, the timestamps of a wallet's rows on shared tokens, and the number of pairs of
  timestamps at most 300 seconds (300000000 microseconds) apart.
\<close>

definition wallet_rows :: "activity list \<Rightarrow> string \<Rightarrow> activity list" where
  "wallet_rows acts w = filter (\<lambda>a. wallet_address a = w) acts"

definition shared_tokens :: "activity list \<Rightarrow> string \<Rightarrow> string \<Rightarrow> string set" where
  "shared_tokens acts w w' =
     coin_symbol ` set (wallet_rows acts w) \<inter> coin_symbol ` set (wallet_rows acts w')"

definition shared_times :: "activity list \<Rightarrow> string \<Rightarrow> string \<Rightarrow> datetime list" where
  "shared_times acts w w' =
     map block_timestamp
       (filter (\<lambda>a. wallet_address a = w \<and> coin_symbol a \<in> shared_tokens acts w w') acts)"

definition close_pairs :: "datetime list \<Rightarrow> datetime list \<Rightarrow> nat" where
  "close_pairs ts ts' =
     length (filter (\<lambda>(s, t). \<bar>microseconds s - microseconds t\<bar> \<le> 300000000)
       (List.product ts ts'))"

text \<open>The correlation reported for the wallets \<open>w\<close> and \<open>w'\<close>, in this order.\<close>

definition correlation_of ::
  "(string list \<Rightarrow> string list) \<Rightarrow> activity list \<Rightarrow> string \<Rightarrow> string \<Rightarrow> correlation" where
  "correlation_of set_order acts w w' =
     \<lparr>wallet_a = w, wallet_b = w',
      common_tokens =
        set_order (intersection (tokens_of (wallet_rows acts w)) (tokens_of (wallet_rows acts w'))),
      time_correlations = close_pairs (shared_times acts w w') (shared_times acts w' w),
      correlation_score =
        min (real (close_pairs (shared_times acts w w') (shared_times acts w' w)) /
             real (max (length (shared_times acts w w')) (length (shared_times acts w' w)))) 1,
      suspicion_level =
        (if min (real (close_pairs (shared_times acts w w') (shared_times acts w' w)) /
             real (max (length (shared_times acts w w')) (length (shared_times acts w' w)))) 1
            > 7 / 10
         then HIGH else MEDIUM)\<rparr>"

section \<open>The scan and the monitoring loop\<close>

text \<open>
  The exceptions the loop tells apart: \<open>KeyboardInterrupt\<close>, and an exception of class
  \<open>Exception\<close> (\<open>StdException\<close>).
\<close>

datatype py_exception = KeyboardInterrupt | StdException

text \<open>
  What one use of the store does: \<open>get_database_connection\<close> returns \<open>None\<close>
  (\<open>ConnectFailed\<close>), the statements inside \<open>try\<close> raise (\<open>QueryRaised\<close>), or they
  return a value.
\<close>

datatype 'a db_result = ConnectFailed | QueryRaised | Returned 'a

definition get_database_whales :: "'w list db_result \<Rightarrow> 'w list" where
  "get_database_whales r =
     (case r of ConnectFailed \<Rightarrow> [] | QueryRaised \<Rightarrow> [] | Returned whales \<Rightarrow> whales)"

definition get_recent_whale_activity :: "activity list db_result \<Rightarrow> activity list" where
  "get_recent_whale_activity r =
     (case r of ConnectFailed \<Rightarrow> [] | QueryRaised \<Rightarrow> [] | Returned rows \<Rightarrow> rows)"

definition save_alert_to_database :: "unit db_result \<Rightarrow> bool" where
  "save_alert_to_database r =
     (case r of ConnectFailed \<Rightarrow> False | QueryRaised \<Rightarrow> False | Returned _ \<Rightarrow> True)"

text \<open>The counters of \<open>ActivityMonitor\<close>.\<close>

record monitor =
  scan_count :: nat
  total_alerts :: nat

text \<open>
  What a run prints and when it waits, in order. The lines of the per-token summary are
  left out: they are computed from the activities for display only.
\<close>

datatype event =
    MonitoringWhales nat
  | NoRecentActivity
  | FoundActivities nat
  | AlertPrinted alert
  | SaveFailed
  | CorrelationPrinted correlation
  | NoSuspiciousPatterns
  | ScanComplete nat nat nat
  | MonitoringError
  | StoppedByUser
  | Sleep nat

text \<open>
  What the world does during one iteration of the loop: the result of the activity
  query, the result of the store for the i-th alert saved, the order in which the process
  lists a set of tokens, an exception that leaves \<open>monitor_whale_activity\<close> before it
  touches the store (\<open>fault\<close>), and whether the operator interrupts the wait after the
  scan or the wait in the exception handler.
\<close>

record scan_env =
  fetch :: "activity list db_result"
  saves :: "nat \<Rightarrow> unit db_result"
  token_order :: "string list \<Rightarrow> string list"
  fault :: "py_exception option"
  sleep_interrupted :: bool
  retry_sleep_interrupted :: bool

text \<open>
  The loop over \<open>coordination_alerts\<close>: each alert is printed, then saved; a saved alert
  is counted, a failed save prints a line.
\<close>

fun process_alerts ::
  "(nat \<Rightarrow> unit db_result) \<Rightarrow> nat \<Rightarrow> alert list \<Rightarrow> nat \<times> event list \<Rightarrow> nat \<times> event list" where
  "process_alerts sv i [] acc = acc"
| "process_alerts sv i (al # als) (alerts_generated, out) =
     process_alerts sv (Suc i) als
       (if save_alert_to_database (sv i)
        then (alerts_generated + 1, out @ [AlertPrinted al])
        else (alerts_generated, out @ [AlertPrinted al, SaveFailed]))"

definition monitor_whale_activity ::
  "scan_env \<Rightarrow> monitor \<Rightarrow> (py_exception + nat) \<times> monitor \<times> event list" where
  "monitor_whale_activity env st =
     (case fault env of
        Some e \<Rightarrow> (Inl e, st, [])
      | None \<Rightarrow>
          let recent_activities = get_recent_whale_activity (fetch env) in
          if recent_activities = [] then (Inr 0, st, [NoRecentActivity])
          else
            let coordination_alerts = detect_coordination_patterns recent_activities;
                wallet_correlations =
                  analyze_wallet_correlations (token_order env) recent_activities;
                (alerts_generated, out) =
                  process_alerts (saves env) 0 coordination_alerts
                    (0, [FoundActivities (length recent_activities)])
            in (Inr alerts_generated,
                st\<lparr>total_alerts := total_alerts st + alerts_generated\<rparr>,
                out @ map CorrelationPrinted wallet_correlations @
                  (if coordination_alerts = [] \<and> wallet_correlations = []
                   then [NoSuspiciousPatterns] else [])))"

text \<open>
  How \<open>while True\<close> is left after the iterations given: not at all (\<open>Looping\<close>), by
  \<open>break\<close> (\<open>Stopped\<close>), or by an exception raised in a handler (\<open>Propagated\<close>). A
  \<open>KeyboardInterrupt\<close> during the wait inside \<open>try\<close> reaches the first handler, one
  during the wait in the second handler leaves the loop.
\<close>

datatype loop_end = Looping | Stopped | Propagated py_exception

fun scan_loop ::
  "scan_env list \<Rightarrow> monitor \<Rightarrow> event list \<Rightarrow> loop_end \<times> monitor \<times> event list" where
  "scan_loop [] st tr = (Looping, st, tr)"
| "scan_loop (env # envs) st tr =
     (case monitor_whale_activity env (st\<lparr>scan_count := scan_count st + 1\<rparr>) of
        (Inr alerts, st', out) \<Rightarrow>
          if sleep_interrupted env
          then (Stopped, st',
                tr @ out @ [ScanComplete (scan_count st') alerts (total_alerts st'), StoppedByUser])
          else scan_loop envs st'
                 (tr @ out @
                    [ScanComplete (scan_count st') alerts (total_alerts st'), Sleep SCAN_INTERVAL])
      | (Inl KeyboardInterrupt, st', out) \<Rightarrow> (Stopped, st', tr @ out @ [StoppedByUser])
      | (Inl StdException, st', out) \<Rightarrow>
          if retry_sleep_interrupted env
          then (Propagated KeyboardInterrupt, st', tr @ out @ [MonitoringError])
          else scan_loop envs st' (tr @ out @ [MonitoringError, Sleep SCAN_INTERVAL]))"

definition run_monitoring_loop ::
  "'w list db_result \<Rightarrow> scan_env list \<Rightarrow> monitor \<Rightarrow> loop_end \<times> monitor \<times> event list" where
  "run_monitoring_loop whales envs st =
     scan_loop envs st [MonitoringWhales (length (get_database_whales whales))]"

text \<open>The alerts a scan printed, the iterations an operator interrupted, the waits of a run.\<close>

definition printed_alerts :: "event list \<Rightarrow> alert list" where
  "printed_alerts out = concat (map (\<lambda>e. case e of AlertPrinted al \<Rightarrow> [al] | _ \<Rightarrow> []) out)"

definition interrupted :: "scan_env \<Rightarrow> bool" where
  "interrupted env \<longleftrightarrow>
     fault env = Some KeyboardInterrupt \<or>
     (fault env \<noteq> Some StdException \<and> sleep_interrupted env) \<or>
     (fault env = Some StdException \<and> retry_sleep_interrupted env)"

definition sleeps :: "event list \<Rightarrow> nat list" where
  "sleeps tr = concat (map (\<lambda>e. case e of Sleep n \<Rightarrow> [n] | _ \<Rightarrow> []) tr)"

text \<open>The correlations a scan printed.\<close>

definition printed_correlations :: "event list \<Rightarrow> correlation list" where
  "printed_correlations out =
     concat (map (\<lambda>e. case e of CorrelationPrinted c \<Rightarrow> [c] | _ \<Rightarrow> []) out)"

section \<open>Concrete inputs\<close>

text \<open>A row with the given wallet, token, kind, USD amount, second and transaction id.\<close>

definition row :: "string \<Rightarrow> string \<Rightarrow> string \<Rightarrow> real \<Rightarrow> nat \<Rightarrow> string \<Rightarrow> activity" where
  "row w tok ty usd sec tx =
     \<lparr>wallet_address = w, coin_symbol = tok, activity_type = ty, amount_tokens = 1,
      amount_usd = usd,
      block_timestamp = \<lparr>dt_minutes = 29000000, dt_second = sec, dt_microsecond = 0\<rparr>,
      transaction_id = tx\<rparr>"

definition minute0 :: datetime where
  "minute0 = \<lparr>dt_minutes = 29000000, dt_second = 0, dt_microsecond = 0\<rparr>"

definition three_rows :: "activity list" where
  "three_rows =
     [row ''0xa'' ''PEPE'' ''buy'' 2000 5 ''t1'',
      row ''0xb'' ''UNI'' ''sell'' 3000 7 ''t2'',
      row ''0xc'' ''PEPE'' ''transfer'' 4000 59 ''t3'']"

definition five_buys :: "activity list" where
  "five_buys =
     [row ''0xa'' ''PEPE'' ''buy'' 2000 1 ''t1'',
      row ''0xb'' ''PEPE'' ''buy'' 2000 12 ''t2'',
      row ''0xc'' ''PEPE'' ''buy'' 2000 30 ''t3'',
      row ''0xd'' ''PEPE'' ''buy'' 2000 31 ''t4'',
      row ''0xe'' ''PEPE'' ''buy'' 2000 59 ''t5'']"

definition four_buys_three_sells :: "activity list" where
  "four_buys_three_sells =
     [row ''0xa'' ''PEPE'' ''buy'' 2000 1 ''t1'',
      row ''0xb'' ''PEPE'' ''buy'' 2000 2 ''t2'',
      row ''0xc'' ''PEPE'' ''buy'' 2000 3 ''t3'',
      row ''0xd'' ''PEPE'' ''buy'' 2000 4 ''t4'',
      row ''0xe'' ''PEPE'' ''sell'' 2000 5 ''t5'',
      row ''0xf'' ''PEPE'' ''sell'' 2000 6 ''t6'',
      row ''0xg'' ''PEPE'' ''sell'' 2000 7 ''t7'']"

definition one_wallet_five_buys :: "activity list" where
  "one_wallet_five_buys =
     [row ''0xa'' ''PEPE'' ''buy'' 2000 1 ''t1'',
      row ''0xa'' ''PEPE'' ''buy'' 2000 2 ''t2'',
      row ''0xa'' ''PEPE'' ''buy'' 2000 3 ''t3'',
      row ''0xa'' ''PEPE'' ''buy'' 2000 4 ''t4'',
      row ''0xa'' ''PEPE'' ''buy'' 2000 5 ''t5'']"

definition trade :: "string \<Rightarrow> string \<Rightarrow> int \<Rightarrow> string \<Rightarrow> activity" where
  "trade w tok minute tx =
     \<lparr>wallet_address = w, coin_symbol = tok, activity_type = ''buy'', amount_tokens = 1,
      amount_usd = 2000,
      block_timestamp = \<lparr>dt_minutes = minute, dt_second = 0, dt_microsecond = 0\<rparr>,
      transaction_id = tx\<rparr>"

definition seven_of_ten :: "activity list" where
  "seven_of_ten =
     [trade ''0xa'' ''UNI'' 0 ''a0'', trade ''0xa'' ''LINK'' 1 ''a1'',
      trade ''0xa'' ''UNI'' 2 ''a2'', trade ''0xa'' ''LINK'' 3 ''a3'',
      trade ''0xa'' ''UNI'' 100 ''a4'', trade ''0xa'' ''LINK'' 101 ''a5'',
      trade ''0xa'' ''UNI'' 102 ''a6'', trade ''0xa'' ''UNI'' 1000 ''a7'',
      trade ''0xa'' ''LINK'' 1001 ''a8'', trade ''0xa'' ''UNI'' 1002 ''a9'',
      trade ''0xb'' ''UNI'' 2 ''b0'', trade ''0xb'' ''LINK'' 100 ''b1'']"

definition two_by_two :: "activity list" where
  "two_by_two =
     [trade ''0xa'' ''UNI'' 0 ''a0'', trade ''0xa'' ''LINK'' 1 ''a1'',
      trade ''0xb'' ''UNI'' 2 ''b0'', trade ''0xb'' ''LINK'' 3 ''b1'']"

definition one_common :: "activity list" where
  "one_common =
     [trade ''0xa'' ''UNI'' 0 ''a0'', trade ''0xa'' ''LINK'' 0 ''a1'',
      trade ''0xb'' ''UNI'' 0 ''b0'', trade ''0xb'' ''AAVE'' 0 ''b1'']"

definition ten_buys :: "activity list" where
  "ten_buys =
     [row ''0xa'' ''PEPE'' ''buy'' 2000 1 ''t1'', row ''0xb'' ''PEPE'' ''buy'' 2000 2 ''t2'',
      row ''0xc'' ''PEPE'' ''buy'' 2000 3 ''t3'', row ''0xd'' ''PEPE'' ''buy'' 2000 4 ''t4'',
      row ''0xe'' ''PEPE'' ''buy'' 2000 5 ''t5'', row ''0xf'' ''PEPE'' ''buy'' 2000 6 ''t6'',
      row ''0xg'' ''PEPE'' ''buy'' 2000 7 ''t7'', row ''0xh'' ''PEPE'' ''buy'' 2000 8 ''t8'',
      row ''0xi'' ''PEPE'' ''buy'' 2000 9 ''t9'', row ''0xj'' ''PEPE'' ''buy'' 2000 10 ''t10'']"

definition pump_and_dump :: "activity list" where
  "pump_and_dump =
     [row ''0xa'' ''PEPE'' ''buy'' 2000 1 ''t1'', row ''0xb'' ''PEPE'' ''buy'' 2000 2 ''t2'',
      row ''0xc'' ''PEPE'' ''buy'' 2000 3 ''t3'', row ''0xd'' ''PEPE'' ''transfer'' 2000 4 ''t4'',
      row ''0xe'' ''PEPE'' ''buy'' 2000 5 ''t5'', row ''0xf'' ''PEPE'' ''sell'' 2000 6 ''t6'',
      row ''0xg'' ''PEPE'' ''sell'' 2000 7 ''t7'', row ''0xh'' ''PEPE'' ''sell'' 2000 8 ''t8'',
      row ''0xi'' ''PEPE'' ''sell'' 2000 9 ''t9'']"

definition second_save_fails :: scan_env where
  "second_save_fails =
     \<lparr>fetch = Returned pump_and_dump,
      saves = (\<lambda>i. if i = 0 then Returned () else QueryRaised),
      token_order = (\<lambda>xs. xs), fault = None,
      sleep_interrupted = False, retry_sleep_interrupted = False\<rparr>"

definition store_unreachable :: scan_env where
  "store_unreachable =
     \<lparr>fetch = ConnectFailed, saves = (\<lambda>i. ConnectFailed),
      token_order = (\<lambda>xs. xs), fault = None,
      sleep_interrupted = False, retry_sleep_interrupted = False\<rparr>"

definition scan_raises :: scan_env where
  "scan_raises =
     \<lparr>fetch = Returned pump_and_dump, saves = (\<lambda>i. Returned ()),
      token_order = (\<lambda>xs. xs), fault = Some StdException,
      sleep_interrupted = False, retry_sleep_interrupted = False\<rparr>"

definition operator_interrupt :: scan_env where
  "operator_interrupt =
     \<lparr>fetch = QueryRaised, saves = (\<lambda>i. Returned ()),
      token_order = (\<lambda>xs. xs), fault = None,
      sleep_interrupted = True, retry_sleep_interrupted = False\<rparr>"

definition fresh_monitor :: monitor where
  "fresh_monitor = \<lparr>scan_count = 0, total_alerts = 0\<rparr>"

text \<open>
  Two scans over the same snapshot that differ in everything else: the counters, the
  results of the saves, the order of set iteration and the operator's interrupt.
\<close>

definition pump_with_pair :: "activity list" where
  "pump_with_pair =
     [row ''0xa'' ''PEPE'' ''buy'' 2000 1 ''t1'', row ''0xb'' ''PEPE'' ''buy'' 2000 2 ''t2'',
      row ''0xc'' ''PEPE'' ''buy'' 2000 3 ''t3'', row ''0xd'' ''PEPE'' ''buy'' 2000 4 ''t4'',
      row ''0xe'' ''PEPE'' ''buy'' 2000 5 ''t5'', row ''0xa'' ''UNI'' ''buy'' 2000 6 ''t6'',
      row ''0xb'' ''UNI'' ''buy'' 2000 7 ''t7'']"

definition first_run :: scan_env where
  "first_run =
     \<lparr>fetch = Returned pump_with_pair, saves = (\<lambda>i. Returned ()),
      token_order = id, fault = None,
      sleep_interrupted = False, retry_sleep_interrupted = False\<rparr>"

definition second_run :: scan_env where
  "second_run =
     \<lparr>fetch = Returned pump_with_pair, saves = (\<lambda>i. ConnectFailed),
      token_order = rev, fault = None,
      sleep_interrupted = True, retry_sleep_interrupted = False\<rparr>"

definition busy_monitor :: monitor where
  "busy_monitor = \<lparr>scan_count = 41, total_alerts = 9\<rparr>"

section \<open>Facts about insertion-ordered dictionaries\<close>

lemma map_of_dd_update:
  "map_of (dd_update k d f m) =
     (map_of m)(k \<mapsto> f (case map_of m k of None \<Rightarrow> d | Some v \<Rightarrow> v))"
  by (induction m) (auto simp: fun_eq_iff)

lemma keys_dd_update:
  "map fst (dd_update k d f m) = (if k \<in> fst ` set m then map fst m else map fst m @ [k])"
  by (induction m) force+

lemma distinct_dd_update:
  "distinct (map fst m) \<Longrightarrow> distinct (map fst (dd_update k d f m))"
  by (simp add: keys_dd_update)

lemma in_dd_update:
  assumes "distinct (map fst m)"
  shows "(k', v') \<in> set (dd_update k d f m) \<longleftrightarrow>
     (if k' = k then v' = f (case map_of m k of None \<Rightarrow> d | Some v \<Rightarrow> v) else (k', v') \<in> set m)"
proof -
  have "(k', v') \<in> set (dd_update k d f m) \<longleftrightarrow> map_of (dd_update k d f m) k' = Some v'"
    using distinct_dd_update [OF assms] by simp
  also have "\<dots> \<longleftrightarrow>
     (if k' = k then v' = f (case map_of m k of None \<Rightarrow> d | Some v \<Rightarrow> v) else map_of m k' = Some v')"
    by (auto simp: map_of_dd_update)
  finally show ?thesis using assms by simp
qed

lemma bucket_lookup_Nil: "bucket_lookup [] tok tb = []"
  by (simp add: bucket_lookup_def)

lemma bucket_lookup_add:
  "bucket_lookup (add_activity a m) tok tb =
     bucket_lookup m tok tb @
       (if coin_symbol a = tok \<and> time_bucket_of a = tb then [entry_of a] else [])"
  by (auto simp: bucket_lookup_def add_activity_def map_of_dd_update split: option.splits)

lemma bucket_lookup_fold:
  "bucket_lookup (fold add_activity acts m) tok tb = bucket_lookup m tok tb @ bucket_of acts tok tb"
  by (induction acts arbitrary: m) (auto simp: bucket_lookup_add bucket_of_def)

lemma bucket_lookup_token_activities:
  "bucket_lookup (token_activities acts) tok tb = bucket_of acts tok tb"
  by (simp add: token_activities_def bucket_lookup_fold bucket_lookup_Nil)

lemma wf_inner_update:
  assumes "distinct (map fst tbs)" "\<forall>tb es. (tb, es) \<in> set tbs \<longrightarrow> es \<noteq> []"
  shows "distinct (map fst (dd_update tb [] (\<lambda>l. l @ [e]) tbs)) \<and>
         (\<forall>tb' es. (tb', es) \<in> set (dd_update tb [] (\<lambda>l. l @ [e]) tbs) \<longrightarrow> es \<noteq> [])"
  using assms by (auto simp: in_dd_update distinct_dd_update split: if_splits)

lemma wf_add_activity:
  assumes "wf_token_map m"
  shows "wf_token_map (add_activity a m)"
proof -
  let ?f = "dd_update (time_bucket_of a) [] (\<lambda>l. l @ [entry_of a])"
  let ?old = "case map_of m (coin_symbol a) of None \<Rightarrow> [] | Some v \<Rightarrow> v"
  have d: "distinct (map fst m)" using assms by (simp add: wf_token_map_def)
  have old: "distinct (map fst tbs) \<and> (\<forall>tb es. (tb, es) \<in> set tbs \<longrightarrow> es \<noteq> [])"
    if "(tok, tbs) \<in> set m" for tok tbs
    using assms that by (auto simp: wf_token_map_def)
  have "distinct (map fst ?old) \<and> (\<forall>tb es. (tb, es) \<in> set ?old \<longrightarrow> es \<noteq> [])"
  proof (cases "map_of m (coin_symbol a)")
    case None
    then show ?thesis by simp
  next
    case (Some w)
    then have "(coin_symbol a, w) \<in> set m" by (simp add: map_of_SomeD)
    from old [OF this] Some show ?thesis by simp
  qed
  then have new: "distinct (map fst (?f ?old)) \<and>
      (\<forall>tb es. (tb, es) \<in> set (?f ?old) \<longrightarrow> es \<noteq> [])"
    by (intro wf_inner_update) simp_all
  show ?thesis
    unfolding wf_token_map_def add_activity_def
  proof (intro conjI allI impI)
    show "distinct (map fst (dd_update (coin_symbol a) [] ?f m))"
      using d by (rule distinct_dd_update)
  next
    fix tok tbs
    assume "(tok, tbs) \<in> set (dd_update (coin_symbol a) [] ?f m)"
    then have c: "tbs = ?f ?old \<or> (tok, tbs) \<in> set m"
      using d by (auto simp: in_dd_update split: if_splits)
    from c new old show "distinct (map fst tbs)" by blast
    fix tb es
    assume "(tb, es) \<in> set tbs"
    with c new old show "es \<noteq> []" by blast
  qed
qed

lemma wf_fold: "wf_token_map m \<Longrightarrow> wf_token_map (fold add_activity acts m)"
  by (induction acts arbitrary: m) (simp_all add: wf_add_activity)

lemma wf_token_activities: "wf_token_map (token_activities acts)"
  unfolding token_activities_def by (rule wf_fold) (simp add: wf_token_map_def)

lemma wf_lookup:
  assumes "wf_token_map m"
  shows "(\<exists>tbs. (tok, tbs) \<in> set m \<and> (tb, es) \<in> set tbs) \<longleftrightarrow>
         (bucket_lookup m tok tb = es \<and> es \<noteq> [])"
proof
  assume "\<exists>tbs. (tok, tbs) \<in> set m \<and> (tb, es) \<in> set tbs"
  then obtain tbs where t: "(tok, tbs) \<in> set m" "(tb, es) \<in> set tbs" by blast
  from assms t have "map_of m tok = Some tbs" "distinct (map fst tbs)" "es \<noteq> []"
    by (auto simp: wf_token_map_def)
  with t show "bucket_lookup m tok tb = es \<and> es \<noteq> []"
    by (simp add: bucket_lookup_def)
next
  assume "bucket_lookup m tok tb = es \<and> es \<noteq> []"
  then show "\<exists>tbs. (tok, tbs) \<in> set m \<and> (tb, es) \<in> set tbs"
    by (auto simp: bucket_lookup_def split: option.splits dest: map_of_SomeD)
qed

lemma mset_items_inner:
  "mset (concat (map (\<lambda>(tb, es). map (\<lambda>e. (tok, tb, e)) es) (dd_update tb [] (\<lambda>l. l @ [e]) tbs))) =
   mset (concat (map (\<lambda>(tb, es). map (\<lambda>e. (tok, tb, e)) es) tbs)) + {#(tok, tb, e)#}"
  by (induction tbs) auto

lemma mset_items_add:
  "mset (bucket_items (add_activity a m)) =
   mset (bucket_items m) + {#(coin_symbol a, time_bucket_of a, entry_of a)#}"
  unfolding bucket_items_def add_activity_def
  by (induction m) (auto simp: mset_items_inner)

lemma mset_items_fold:
  "mset (bucket_items (fold add_activity acts m)) =
   mset (bucket_items m) + image_mset (\<lambda>a. (coin_symbol a, time_bucket_of a, entry_of a)) (mset acts)"
  by (induction acts arbitrary: m) (simp_all add: mset_items_add)

lemma bucket_keys_fst: "x \<in> set (bucket_keys m) \<Longrightarrow> fst x \<in> fst ` set m"
  by (force simp: bucket_keys_def)

lemma distinct_bucket_keys: "wf_token_map m \<Longrightarrow> distinct (bucket_keys m)"
proof (induction m)
  case Nil
  then show ?case by (simp add: bucket_keys_def)
next
  case (Cons p m)
  obtain tok tbs where p: "p = (tok, tbs)" by (cases p)
  from Cons.prems have wf: "wf_token_map m" and d: "distinct (map fst tbs)"
    and n: "tok \<notin> fst ` set m"
    by (auto simp: wf_token_map_def p)
  have k: "bucket_keys (p # m) = map (Pair tok) (map fst tbs) @ bucket_keys m"
    by (simp add: bucket_keys_def p)
  have "distinct (map (Pair tok) (map fst tbs))"
    using d by (simp add: distinct_map inj_on_def)
  moreover have "set (map (Pair tok) (map fst tbs)) \<inter> set (bucket_keys m) = {}"
    using n bucket_keys_fst [of _ m] by fastforce
  ultimately show ?case
    using Cons.IH [OF wf] by (simp add: k)
qed

section \<open>The grouping loop\<close>

lemma bucket_items_Nil: "bucket_items [] = []"
  by (simp add: bucket_items_def)

lemma bucket_alerts_Nil: "bucket_alerts tok (tb, []) = []"
  by (simp add: bucket_alerts_def COORDINATION_THRESHOLD_def)

lemma bucket_of_Nil: "bucket_of [] tok tb = []"
  by (simp add: bucket_of_def)

lemma detect_set:
  "al \<in> set (detect_coordination_patterns acts) \<longleftrightarrow>
     (\<exists>tok tb. al \<in> set (bucket_alerts tok (tb, bucket_of acts tok tb)))"
proof
  assume "al \<in> set (detect_coordination_patterns acts)"
  then obtain tok tbs tb es where
    m: "(tok, tbs) \<in> set (token_activities acts)" "(tb, es) \<in> set tbs"
    and al: "al \<in> set (bucket_alerts tok (tb, es))"
    by (auto simp: detect_coordination_patterns_def token_alerts_def split: if_splits)
  from m have "bucket_lookup (token_activities acts) tok tb = es"
    using wf_lookup [OF wf_token_activities] by blast
  then have "es = bucket_of acts tok tb"
    by (simp add: bucket_lookup_token_activities)
  with al show "\<exists>tok tb. al \<in> set (bucket_alerts tok (tb, bucket_of acts tok tb))"
    by blast
next
  assume "\<exists>tok tb. al \<in> set (bucket_alerts tok (tb, bucket_of acts tok tb))"
  then obtain tok tb where al: "al \<in> set (bucket_alerts tok (tb, bucket_of acts tok tb))"
    by blast
  then have ne: "bucket_of acts tok tb \<noteq> []"
    using bucket_alerts_Nil [of tok tb] by auto
  then have acts: "acts \<noteq> []"
    using bucket_of_Nil by auto
  from ne obtain tbs where
    "(tok, tbs) \<in> set (token_activities acts)" "(tb, bucket_of acts tok tb) \<in> set tbs"
    using wf_lookup [OF wf_token_activities [of acts], where tok = tok and tb = tb]
    by (auto simp: bucket_lookup_token_activities)
  with al acts show "al \<in> set (detect_coordination_patterns acts)"
    by (force simp: detect_coordination_patterns_def token_alerts_def)
qed

section \<open>Alerts of one bucket\<close>

lemma bucket_of_group: "bucket_of acts tok tb = map entry_of (group_of acts tok tb)"
  by (simp add: bucket_of_def group_of_def)

lemma buy_activities_map:
  "buy_activities (map entry_of xs) = map entry_of (filter buy_like xs)"
  by (induction xs) (auto simp: buy_activities_def buy_like_def entry_of_def)

lemma sell_activities_map:
  "sell_activities (map entry_of xs) = map entry_of (filter sell_like xs)"
  by (induction xs) (auto simp: sell_activities_def sell_like_def entry_of_def)

lemma unique_wallets_map:
  "unique_wallets (map entry_of xs) = card (wallet_address ` set xs)"
proof -
  have "map wallet (map entry_of xs) = map wallet_address xs"
    by (simp add: entry_of_def)
  then show ?thesis
    by (simp add: unique_wallets_def length_remdups_card_conv)
qed

lemma volume_map:
  "sum_list (map usd_amount (map entry_of xs)) = sum_list (map amount_usd xs)"
  by (simp add: entry_of_def comp_def)

lemma in_bucket_alerts:
  "al \<in> set (bucket_alerts tok (tb, es)) \<longleftrightarrow>
     3 \<le> length es \<and>
     (5 \<le> length (buy_activities es) \<and> al = pump_alert tok tb (buy_activities es) \<or>
      4 \<le> length (sell_activities es) \<and> al = dump_alert tok tb (sell_activities es))"
  by (auto simp: bucket_alerts_def COORDINATION_THRESHOLD_def rapid_buys_def rapid_sells_def)

lemma pump_alert_sel:
  "alert_type (pump_alert tok tb es) = POTENTIAL_PUMP"
  "token (pump_alert tok tb es) = tok"
  "alert_time (pump_alert tok tb es) = tb"
  "whale_count (pump_alert tok tb es) = unique_wallets es"
  "total_volume (pump_alert tok tb es) = sum_list (map usd_amount es)"
  "activities (pump_alert tok tb es) = es"
  "confidence (pump_alert tok tb es) = min (real (unique_wallets es) / 5) 1"
  by (simp_all add: pump_alert_def rapid_buys_def)

lemma dump_alert_sel:
  "alert_type (dump_alert tok tb es) = POTENTIAL_DUMP"
  "token (dump_alert tok tb es) = tok"
  "alert_time (dump_alert tok tb es) = tb"
  "whale_count (dump_alert tok tb es) = unique_wallets es"
  "total_volume (dump_alert tok tb es) = sum_list (map usd_amount es)"
  "activities (dump_alert tok tb es) = es"
  "confidence (dump_alert tok tb es) = min (real (unique_wallets es) / 4) 1"
  by (simp_all add: dump_alert_def rapid_sells_def)

lemma pump_in_detect:
  assumes "3 \<le> length (group_of acts tok tb)"
    and "5 \<le> length (filter buy_like (group_of acts tok tb))"
  shows "pump_alert tok tb (map entry_of (filter buy_like (group_of acts tok tb)))
           \<in> set (detect_coordination_patterns acts)"
proof -
  have "pump_alert tok tb (map entry_of (filter buy_like (group_of acts tok tb)))
          \<in> set (bucket_alerts tok (tb, bucket_of acts tok tb))"
    using assms by (simp add: in_bucket_alerts bucket_of_group buy_activities_map)
  then show ?thesis
    unfolding detect_set by blast
qed

lemma dump_in_detect_iff:
  "(\<exists>al \<in> set (detect_coordination_patterns acts).
      alert_type al = POTENTIAL_DUMP \<and> token al = tok \<and> alert_time al = tb) \<longleftrightarrow>
   3 \<le> length (group_of acts tok tb) \<and> 4 \<le> length (filter sell_like (group_of acts tok tb))"
  (is "?lhs \<longleftrightarrow> ?rhs")
proof
  assume ?lhs
  then obtain al tok' tb' where
    al: "al \<in> set (bucket_alerts tok' (tb', bucket_of acts tok' tb'))"
    and p: "alert_type al = POTENTIAL_DUMP" "token al = tok" "alert_time al = tb"
    by (auto simp: detect_set)
  from al have l: "3 \<le> length (bucket_of acts tok' tb')"
    and c: "al = pump_alert tok' tb' (buy_activities (bucket_of acts tok' tb')) \<or>
      4 \<le> length (sell_activities (bucket_of acts tok' tb')) \<and>
      al = dump_alert tok' tb' (sell_activities (bucket_of acts tok' tb'))"
    unfolding in_bucket_alerts by blast+
  from c p(1) have d: "4 \<le> length (sell_activities (bucket_of acts tok' tb'))"
    "al = dump_alert tok' tb' (sell_activities (bucket_of acts tok' tb'))"
    by (auto simp: pump_alert_sel)
  from d(2) p(2,3) have "tok' = tok" "tb' = tb"
    by (simp_all add: dump_alert_sel)
  with l d(1) show ?rhs
    by (simp add: bucket_of_group sell_activities_map)
next
  assume ?rhs
  then have "dump_alert tok tb (map entry_of (filter sell_like (group_of acts tok tb)))
          \<in> set (bucket_alerts tok (tb, bucket_of acts tok tb))"
    by (simp add: in_bucket_alerts bucket_of_group sell_activities_map)
  then have "dump_alert tok tb (map entry_of (filter sell_like (group_of acts tok tb)))
          \<in> set (detect_coordination_patterns acts)"
    unfolding detect_set by blast
  then show ?lhs
    by (rule bexI [rotated]) (simp add: dump_alert_sel)
qed



lemma no_alerts_four_buys_three_sells:
  "detect_coordination_patterns four_buys_three_sells = []"
  by (simp add: detect_coordination_patterns_def four_buys_three_sells_def row_def
      token_activities_def add_activity_def time_bucket_of_def replace_second_microsecond_def
      entry_of_def token_alerts_def bucket_alerts_def buy_activities_def sell_activities_def
      COORDINATION_THRESHOLD_def rapid_buys_def rapid_sells_def)

section \<open>Correlations of one pair of wallets\<close>

lemma map_of_add_wallet:
  "map_of (add_wallet_activity a m) w =
     (if w = wallet_address a
      then Some ((case map_of m w of None \<Rightarrow> [] | Some l \<Rightarrow> l) @ [a])
      else map_of m w)"
  by (simp add: add_wallet_activity_def map_of_dd_update)

lemma map_of_add_wallet_fold:
  "map_of (fold add_wallet_activity acts m) w =
     (case map_of m w of
        None \<Rightarrow> if w \<in> wallet_address ` set acts then Some (wallet_rows acts w) else None
      | Some l \<Rightarrow> Some (l @ wallet_rows acts w))"
proof (induction acts arbitrary: m)
  case Nil
  then show ?case by (simp add: wallet_rows_def split: option.splits)
next
  case (Cons a acts)
  have "map_of (fold add_wallet_activity (a # acts) m) w =
      map_of (fold add_wallet_activity acts (add_wallet_activity a m)) w"
    by simp
  also have "\<dots> =
     (case map_of (add_wallet_activity a m) w of
        None \<Rightarrow> if w \<in> wallet_address ` set acts then Some (wallet_rows acts w) else None
      | Some l \<Rightarrow> Some (l @ wallet_rows acts w))"
    by (rule Cons.IH)
  also have "\<dots> =
     (case map_of m w of
        None \<Rightarrow> if w \<in> wallet_address ` set (a # acts)
          then Some (wallet_rows (a # acts) w) else None
      | Some l \<Rightarrow> Some (l @ wallet_rows (a # acts) w))"
    by (auto simp: map_of_add_wallet wallet_rows_def split: option.splits)
  finally show ?case .
qed

lemma map_of_wallet_activities:
  "map_of (wallet_activities acts) w =
     (if w \<in> wallet_address ` set acts then Some (wallet_rows acts w) else None)"
  by (simp add: wallet_activities_def map_of_add_wallet_fold)

lemma distinct_wallet_fold:
  "distinct (map fst m) \<Longrightarrow> distinct (map fst (fold add_wallet_activity acts m))"
  by (induction acts arbitrary: m) (simp_all add: add_wallet_activity_def distinct_dd_update)

lemma distinct_wallet_activities: "distinct (map fst (wallet_activities acts))"
  by (simp add: wallet_activities_def distinct_wallet_fold)

lemma in_wallet_activities:
  "(w, xs) \<in> set (wallet_activities acts) \<longleftrightarrow>
     w \<in> wallet_address ` set acts \<and> xs = wallet_rows acts w"
  using distinct_wallet_activities [of acts]
  by (auto simp: map_of_wallet_activities simp flip: map_of_eq_Some_iff)

lemma pairs_subset: "(x, y) \<in> set (pairs xs) \<Longrightarrow> x \<in> set xs \<and> y \<in> set xs"
  by (induction xs) auto

lemma pairs_keys_differ:
  "distinct (map fst xs) \<Longrightarrow> (x, y) \<in> set (pairs xs) \<Longrightarrow> fst x \<noteq> fst y"
  by (induction xs) (auto dest: pairs_subset)

lemma pairs_total:
  "x \<in> set xs \<Longrightarrow> y \<in> set xs \<Longrightarrow> x \<noteq> y \<Longrightarrow>
     (x, y) \<in> set (pairs xs) \<or> (y, x) \<in> set (pairs xs)"
  by (induction xs) auto

lemma set_intersection_tokens:
  "set (intersection (tokens_of xs) (tokens_of ys)) = coin_symbol ` set xs \<inter> coin_symbol ` set ys"
  by (auto simp: intersection_def tokens_of_def)

lemma length_intersection_tokens:
  "length (intersection (tokens_of xs) (tokens_of ys)) =
     card (coin_symbol ` set xs \<inter> coin_symbol ` set ys)"
proof -
  have "distinct (intersection (tokens_of xs) (tokens_of ys))"
    by (simp add: intersection_def tokens_of_def)
  then show ?thesis
    using set_intersection_tokens [of xs ys] by (metis distinct_card)
qed

lemma shared_tokens_commute: "shared_tokens acts w w' = shared_tokens acts w' w"
  by (auto simp: shared_tokens_def)

lemma times_in_rows:
  "times_in (intersection (tokens_of (wallet_rows acts w)) (tokens_of (wallet_rows acts w')))
     (wallet_rows acts w) = shared_times acts w w'"
  "times_in (intersection (tokens_of (wallet_rows acts w)) (tokens_of (wallet_rows acts w')))
     (wallet_rows acts w') = shared_times acts w' w"
proof -
  have s: "set (intersection (tokens_of (wallet_rows acts w)) (tokens_of (wallet_rows acts w')))
      = shared_tokens acts w w'"
    by (simp add: set_intersection_tokens shared_tokens_def)
  show "times_in (intersection (tokens_of (wallet_rows acts w)) (tokens_of (wallet_rows acts w')))
     (wallet_rows acts w) = shared_times acts w w'"
    unfolding times_in_def s shared_times_def by (simp add: wallet_rows_def)
  show "times_in (intersection (tokens_of (wallet_rows acts w)) (tokens_of (wallet_rows acts w')))
     (wallet_rows acts w') = shared_times acts w' w"
    unfolding times_in_def s shared_times_def shared_tokens_commute [of acts w' w]
    by (simp add: wallet_rows_def)
qed

lemma close_iff:
  "\<bar>total_seconds s t\<bar> \<le> 300 \<longleftrightarrow> \<bar>microseconds s - microseconds t\<bar> \<le> 300000000"
proof -
  have "\<bar>total_seconds s t\<bar> = real_of_int \<bar>microseconds s - microseconds t\<bar> / 1000000"
    by (simp add: total_seconds_def)
  also have "\<dots> \<le> 300 \<longleftrightarrow> real_of_int \<bar>microseconds s - microseconds t\<bar> \<le> 300000000"
    by (simp add: field_simps)
  also have "\<dots> \<longleftrightarrow> \<bar>microseconds s - microseconds t\<bar> \<le> 300000000"
    by linarith
  finally show ?thesis .
qed

lemma count_is_close_pairs: "count_time_correlations ts ts' = close_pairs ts ts'"
proof (induction ts)
  case Nil
  then show ?case by (simp add: count_time_correlations_def close_pairs_def)
next
  case (Cons s ts)
  have "length (filter (\<lambda>(s, t). \<bar>microseconds s - microseconds t\<bar> \<le> 300000000)
          (map (Pair s) ts')) =
        length (filter (\<lambda>t. \<bar>total_seconds s t\<bar> \<le> 300) ts')"
    by (simp add: filter_map comp_def close_iff)
  with Cons.IH show ?case
    by (simp add: count_time_correlations_def close_pairs_def)
qed

lemma length_filter_product_swap:
  "length (filter P (List.product xs ys)) = length (filter (\<lambda>(y, x). P (x, y)) (List.product ys xs))"
proof -
  have "mset (List.product xs ys) = image_mset prod.swap (mset (List.product ys xs))"
  proof (induction xs)
    case Nil
    then show ?case by (induction ys) simp_all
  next
    case (Cons x xs)
    have "mset (List.product ys (x # xs)) =
        image_mset (\<lambda>y. (y, x)) (mset ys) + mset (List.product ys xs)"
      by (induction ys) (simp_all add: ac_simps)
    with Cons.IH show ?case
      by (simp add: image_mset.compositionality comp_def)
  qed
  then have "size (filter_mset P (mset (List.product xs ys))) =
      size (filter_mset P (image_mset prod.swap (mset (List.product ys xs))))"
    by simp
  also have "\<dots> = size (filter_mset (\<lambda>(y, x). P (x, y)) (mset (List.product ys xs)))"
    by (simp add: filter_mset_image_mset comp_def case_prod_unfold prod.swap_def)
  finally show ?thesis
    by (simp flip: mset_filter)
qed

lemma close_pairs_commute: "close_pairs ts ts' = close_pairs ts' ts"
proof -
  have "(\<lambda>(y, x). (case (x, y) of (s, t) \<Rightarrow> \<bar>microseconds s - microseconds t\<bar> \<le> 300000000)) =
        (\<lambda>(s, t). \<bar>microseconds s - microseconds t\<bar> \<le> (300000000::int))"
    by (auto simp: fun_eq_iff abs_minus_commute)
  then show ?thesis
    unfolding close_pairs_def
    using length_filter_product_swap
      [of "\<lambda>(s, t). \<bar>microseconds s - microseconds t\<bar> \<le> 300000000" ts ts']
    by simp
qed

lemma if_if_conj: "(if a then (if b then x else y) else y) = (if a \<and> b then x else y)"
  by simp

lemma pair_correlation_rows:
  "pair_correlation set_order (w, wallet_rows acts w) (w', wallet_rows acts w') =
     (if 2 \<le> card (shared_tokens acts w w') \<and>
         2 \<le> close_pairs (shared_times acts w w') (shared_times acts w' w)
      then [correlation_of set_order acts w w'] else [])"
  unfolding pair_correlation_def correlation_of_def Let_def prod.case
    length_intersection_tokens times_in_rows count_is_close_pairs shared_tokens_def
  by (rule if_if_conj)

lemma two_wallets_length:
  assumes "w \<in> wallet_address ` set acts" "w' \<in> wallet_address ` set acts" "w \<noteq> w'"
  shows "2 \<le> length acts"
proof -
  from assms obtain a b where ab: "a \<in> set acts" "b \<in> set acts" "a \<noteq> b" by auto
  then have "card {a, b} \<le> card (set acts)"
    by (intro card_mono) auto
  with ab(3) have "2 \<le> card (set acts)" by simp
  then show ?thesis
    using card_length [of acts] by linarith
qed

lemma pair_in_pairs:
  assumes "((w, xs), (w', ys)) \<in> set (pairs (wallet_activities acts))"
  shows "w \<noteq> w'" "w \<in> wallet_address ` set acts" "w' \<in> wallet_address ` set acts"
    "xs = wallet_rows acts w" "ys = wallet_rows acts w'"
proof -
  from pairs_keys_differ [OF distinct_wallet_activities assms] show "w \<noteq> w'" by simp
  from pairs_subset [OF assms]
  have "(w, xs) \<in> set (wallet_activities acts)" "(w', ys) \<in> set (wallet_activities acts)"
    by simp_all
  then show "w \<in> wallet_address ` set acts" "w' \<in> wallet_address ` set acts"
    "xs = wallet_rows acts w" "ys = wallet_rows acts w'"
    by (simp_all add: in_wallet_activities)
qed

lemma pairs_wallets_total:
  assumes "w \<in> wallet_address ` set acts" "w' \<in> wallet_address ` set acts" "w \<noteq> w'"
  shows "((w, wallet_rows acts w), (w', wallet_rows acts w')) \<in> set (pairs (wallet_activities acts)) \<or>
         ((w', wallet_rows acts w'), (w, wallet_rows acts w)) \<in> set (pairs (wallet_activities acts))"
proof -
  from assms have "(w, wallet_rows acts w) \<in> set (wallet_activities acts)"
    "(w', wallet_rows acts w') \<in> set (wallet_activities acts)"
    "(w, wallet_rows acts w) \<noteq> (w', wallet_rows acts w')"
    by (simp_all add: in_wallet_activities)
  then show ?thesis by (rule pairs_total)
qed

lemma analyze_set:
  "c \<in> set (analyze_wallet_correlations set_order acts) \<longleftrightarrow>
     (\<exists>w w'. ((w, wallet_rows acts w), (w', wallet_rows acts w'))
                \<in> set (pairs (wallet_activities acts)) \<and>
        2 \<le> card (shared_tokens acts w w') \<and>
        2 \<le> close_pairs (shared_times acts w w') (shared_times acts w' w) \<and>
        c = correlation_of set_order acts w w')"
  (is "?lhs \<longleftrightarrow> ?rhs")
proof
  assume ?lhs
  then obtain w xs w' ys where
    p: "((w, xs), (w', ys)) \<in> set (pairs (wallet_activities acts))"
    and c: "c \<in> set (pair_correlation set_order (w, xs) (w', ys))"
    by (auto simp: analyze_wallet_correlations_def split: if_splits)
  from pair_in_pairs(4,5) [OF p] have r: "xs = wallet_rows acts w" "ys = wallet_rows acts w'" .
  from c have "2 \<le> card (shared_tokens acts w w') \<and>
        2 \<le> close_pairs (shared_times acts w w') (shared_times acts w' w) \<and>
        c = correlation_of set_order acts w w'"
    unfolding r pair_correlation_rows by (simp split: if_splits)
  with p r show ?rhs by blast
next
  assume ?rhs
  then obtain w w' where
    p: "((w, wallet_rows acts w), (w', wallet_rows acts w')) \<in> set (pairs (wallet_activities acts))"
    and h: "2 \<le> card (shared_tokens acts w w')"
      "2 \<le> close_pairs (shared_times acts w w') (shared_times acts w' w)"
      "c = correlation_of set_order acts w w'"
    by blast
  from pair_in_pairs(1,2,3) [OF p] have "2 \<le> length acts"
    using two_wallets_length by blast
  moreover from h have
    "c \<in> set (pair_correlation set_order (w, wallet_rows acts w) (w', wallet_rows acts w'))"
    by (simp add: pair_correlation_rows)
  ultimately show ?lhs
    using p by (force simp: analyze_wallet_correlations_def)
qed

lemma correlation_of_sel:
  "wallet_a (correlation_of set_order acts w w') = w"
  "wallet_b (correlation_of set_order acts w w') = w'"
  "time_correlations (correlation_of set_order acts w w') =
     close_pairs (shared_times acts w w') (shared_times acts w' w)"
  "correlation_score (correlation_of set_order acts w w') =
     min (real (close_pairs (shared_times acts w w') (shared_times acts w' w)) /
          real (max (length (shared_times acts w w')) (length (shared_times acts w' w)))) 1"
  "suspicion_level (correlation_of set_order acts w w') =
     (if correlation_score (correlation_of set_order acts w w') > 7 / 10 then HIGH else MEDIUM)"
  unfolding correlation_of_def by simp_all

lemma correlation_of_swap:
  "time_correlations (correlation_of set_order acts w' w) =
     time_correlations (correlation_of set_order acts w w')"
  "correlation_score (correlation_of set_order acts w' w) =
     correlation_score (correlation_of set_order acts w w')"
  "suspicion_level (correlation_of set_order acts w' w) =
     suspicion_level (correlation_of set_order acts w w')"
  unfolding correlation_of_sel
  by (simp_all add: close_pairs_commute [of "shared_times acts w' w"] max.commute)

lemma shared_tokens_wallets:
  assumes "2 \<le> card (shared_tokens acts w w')"
  shows "w \<in> wallet_address ` set acts" "w' \<in> wallet_address ` set acts"
proof -
  from assms have "shared_tokens acts w w' \<noteq> {}" by auto
  then show "w \<in> wallet_address ` set acts" "w' \<in> wallet_address ` set acts"
    by (auto simp: shared_tokens_def wallet_rows_def)
qed

text \<open>The correlation reported for an unordered pair of wallets, whichever comes first.\<close>

lemma analyze_pair:
  assumes "c \<in> set (analyze_wallet_correlations set_order acts)"
    and "{wallet_a c, wallet_b c} = {w, w'}"
  shows "2 \<le> card (shared_tokens acts w w')"
    and "2 \<le> close_pairs (shared_times acts w w') (shared_times acts w' w)"
    and "time_correlations c = time_correlations (correlation_of set_order acts w w')"
    and "correlation_score c = correlation_score (correlation_of set_order acts w w')"
    and "suspicion_level c = suspicion_level (correlation_of set_order acts w w')"
proof -
  from assms(1) obtain v v' where
    h: "2 \<le> card (shared_tokens acts v v')"
      "2 \<le> close_pairs (shared_times acts v v') (shared_times acts v' v)"
      "c = correlation_of set_order acts v v'"
    unfolding analyze_set by blast
  from assms(2) h(3) have "v = w \<and> v' = w' \<or> v = w' \<and> v' = w"
    by (auto simp: correlation_of_sel doubleton_eq_iff)
  then show "2 \<le> card (shared_tokens acts w w')"
    and "2 \<le> close_pairs (shared_times acts w w') (shared_times acts w' w)"
    and "time_correlations c = time_correlations (correlation_of set_order acts w w')"
    and "correlation_score c = correlation_score (correlation_of set_order acts w w')"
    and "suspicion_level c = suspicion_level (correlation_of set_order acts w w')"
    using h shared_tokens_commute [of acts w w'] close_pairs_commute [of "shared_times acts w' w"]
      correlation_of_swap [of set_order acts w w']
    by auto
qed

lemma analyze_pair_exists:
  assumes "w \<noteq> w'" "2 \<le> card (shared_tokens acts w w')"
    and "2 \<le> close_pairs (shared_times acts w w') (shared_times acts w' w)"
  shows "\<exists>c \<in> set (analyze_wallet_correlations set_order acts). {wallet_a c, wallet_b c} = {w, w'}"
proof -
  from shared_tokens_wallets [OF assms(2)] assms(1)
  have "((w, wallet_rows acts w), (w', wallet_rows acts w')) \<in> set (pairs (wallet_activities acts)) \<or>
         ((w', wallet_rows acts w'), (w, wallet_rows acts w)) \<in> set (pairs (wallet_activities acts))"
    by (intro pairs_wallets_total)
  then show ?thesis
  proof
    assume "((w, wallet_rows acts w), (w', wallet_rows acts w')) \<in> set (pairs (wallet_activities acts))"
    with assms(2,3) have "correlation_of set_order acts w w'
        \<in> set (analyze_wallet_correlations set_order acts)"
      unfolding analyze_set by blast
    then show ?thesis
      by (rule bexI [rotated]) (simp add: correlation_of_sel)
  next
    assume "((w', wallet_rows acts w'), (w, wallet_rows acts w)) \<in> set (pairs (wallet_activities acts))"
    moreover from assms(2,3) have "2 \<le> card (shared_tokens acts w' w)"
      "2 \<le> close_pairs (shared_times acts w' w) (shared_times acts w w')"
      using shared_tokens_commute [of acts w w'] close_pairs_commute [of "shared_times acts w' w"]
      by simp_all
    ultimately have "correlation_of set_order acts w' w
        \<in> set (analyze_wallet_correlations set_order acts)"
      unfolding analyze_set by blast
    then show ?thesis
      by (rule bexI [rotated]) (auto simp: correlation_of_sel)
  qed
qed

lemma seven_of_ten_tokens:
  "shared_tokens seven_of_ten ''0xa'' ''0xb'' = {''UNI'', ''LINK''}"
  "shared_tokens seven_of_ten ''0xb'' ''0xa'' = {''UNI'', ''LINK''}"
  by (auto simp add: shared_tokens_def wallet_rows_def seven_of_ten_def trade_def)

lemma seven_of_ten_lengths:
  "length (shared_times seven_of_ten ''0xa'' ''0xb'') = 10"
  "length (shared_times seven_of_ten ''0xb'' ''0xa'') = 2"
  unfolding shared_times_def seven_of_ten_tokens
  by (simp_all add: seven_of_ten_def trade_def)

lemma seven_of_ten_close:
  "close_pairs (shared_times seven_of_ten ''0xa'' ''0xb'')
     (shared_times seven_of_ten ''0xb'' ''0xa'') = 7"
  unfolding shared_times_def seven_of_ten_tokens
  by (simp add: seven_of_ten_def trade_def close_pairs_def microseconds_def)

lemma two_by_two_tokens:
  "shared_tokens two_by_two ''0xa'' ''0xb'' = {''UNI'', ''LINK''}"
  "shared_tokens two_by_two ''0xb'' ''0xa'' = {''UNI'', ''LINK''}"
  by (auto simp add: shared_tokens_def wallet_rows_def two_by_two_def trade_def)

lemma two_by_two_lengths:
  "length (shared_times two_by_two ''0xa'' ''0xb'') = 2"
  "length (shared_times two_by_two ''0xb'' ''0xa'') = 2"
  unfolding shared_times_def two_by_two_tokens
  by (simp_all add: two_by_two_def trade_def)

lemma two_by_two_close:
  "close_pairs (shared_times two_by_two ''0xa'' ''0xb'')
     (shared_times two_by_two ''0xb'' ''0xa'') = 4"
  unfolding shared_times_def two_by_two_tokens
  by (simp add: two_by_two_def trade_def close_pairs_def microseconds_def)

lemma one_common_tokens: "shared_tokens one_common ''0xa'' ''0xb'' = {''UNI''}"
  by (auto simp add: shared_tokens_def wallet_rows_def one_common_def trade_def)

lemma one_common_none: "analyze_wallet_correlations (\<lambda>xs. xs) one_common = []"
  by (simp add: analyze_wallet_correlations_def one_common_def trade_def wallet_activities_def
      add_wallet_activity_def pair_correlation_def tokens_of_def intersection_def)

section \<open>Scores and the order of set iteration\<close>

lemma detect_cases:
  assumes "al \<in> set (detect_coordination_patterns acts)"
  shows "(\<exists>tok tb es. al = pump_alert tok tb es) \<or> (\<exists>tok tb es. al = dump_alert tok tb es)"
  using assms unfolding detect_set in_bucket_alerts by blast

lemma ten_buys_group:
  "group_of ten_buys ''PEPE'' minute0 = ten_buys" "filter buy_like ten_buys = ten_buys"
  by (simp_all add: group_of_def ten_buys_def row_def time_bucket_of_def
      replace_second_microsecond_def minute0_def buy_like_def)

lemma ten_buys_wallets: "card (wallet_address ` set ten_buys) = 10"
  by (simp add: ten_buys_def row_def)

lemma analyze_two_by_two:
  "analyze_wallet_correlations (\<lambda>xs. xs) two_by_two =
     [\<lparr>wallet_a = ''0xa'', wallet_b = ''0xb'', common_tokens = [''UNI'', ''LINK''],
       time_correlations = 4, correlation_score = 1, suspicion_level = HIGH\<rparr>]"
  "analyze_wallet_correlations rev two_by_two =
     [\<lparr>wallet_a = ''0xa'', wallet_b = ''0xb'', common_tokens = [''LINK'', ''UNI''],
       time_correlations = 4, correlation_score = 1, suspicion_level = HIGH\<rparr>]"
  by (simp_all add: analyze_wallet_correlations_def two_by_two_def trade_def
      wallet_activities_def add_wallet_activity_def pair_correlation_def tokens_of_def
      intersection_def times_in_def count_time_correlations_def total_seconds_def
      microseconds_def)

lemma pair_correlation_order:
  "map (\<lambda>c. c\<lparr>common_tokens := []\<rparr>) (pair_correlation order1 pa pb) =
   map (\<lambda>c. c\<lparr>common_tokens := []\<rparr>) (pair_correlation order2 pa pb)"
  by (cases pa; cases pb) (simp add: pair_correlation_def Let_def)

lemma pair_correlation_token_sets:
  assumes "\<forall>xs. set (order1 xs) = set xs" and "\<forall>xs. set (order2 xs) = set xs"
  shows "map (\<lambda>c. set (common_tokens c)) (pair_correlation order1 pa pb) =
   map (\<lambda>c. set (common_tokens c)) (pair_correlation order2 pa pb)"
  using assms by (cases pa; cases pb) (simp add: pair_correlation_def Let_def)

lemma map_analyze:
  "map f (analyze_wallet_correlations set_order acts) =
     (if length acts < 2 then []
      else concat (map (\<lambda>(pa, pb). map f (pair_correlation set_order pa pb))
             (pairs (wallet_activities acts))))"
  by (simp add: analyze_wallet_correlations_def map_concat comp_def case_prod_unfold)

section \<open>One scan\<close>

lemma sleeps_append: "sleeps (xs @ ys) = sleeps xs @ sleeps ys"
  by (simp add: sleeps_def)

lemma printed_alerts_append: "printed_alerts (xs @ ys) = printed_alerts xs @ printed_alerts ys"
  by (simp add: printed_alerts_def)

lemma process_alerts_count:
  "fst (process_alerts sv i als (n, out)) =
     n + length (filter (\<lambda>k. save_alert_to_database (sv (i + k))) [0..<length als])"
proof (induction als arbitrary: i n out)
  case Nil
  then show ?case by simp
next
  case (Cons al als)
  have u: "[0..<length (al # als)] = 0 # map Suc [0..<length als]"
    by (simp add: upt_conv_Cons map_Suc_upt del: upt_Suc)
  show ?case
    unfolding u by (simp add: Cons.IH filter_map comp_def)
qed

lemma process_alerts_printed:
  "printed_alerts (snd (process_alerts sv i als (n, out))) = printed_alerts out @ als"
  by (induction als arbitrary: i n out)
    (simp_all add: printed_alerts_append, simp_all add: printed_alerts_def)

lemma process_alerts_sleeps:
  "sleeps (snd (process_alerts sv i als (n, out))) = sleeps out"
  by (induction als arbitrary: i n out)
    (simp_all add: sleeps_append, simp_all add: sleeps_def)

lemma monitor_fault:
  "fault env = Some e \<Longrightarrow> monitor_whale_activity env st = (Inl e, st, [])"
  by (simp add: monitor_whale_activity_def)

lemma monitor_no_fault:
  assumes "fault env = None"
  shows "monitor_whale_activity env st =
     (Inr (fst (process_alerts (saves env) 0
              (detect_coordination_patterns (get_recent_whale_activity (fetch env))) (0, []))),
      st\<lparr>total_alerts := total_alerts st +
          fst (process_alerts (saves env) 0
              (detect_coordination_patterns (get_recent_whale_activity (fetch env))) (0, []))\<rparr>,
      snd (snd (monitor_whale_activity env st)))"
proof (cases "get_recent_whale_activity (fetch env) = []")
  case True
  with assms show ?thesis
    by (simp add: monitor_whale_activity_def detect_coordination_patterns_def)
next
  case False
  have "fst (process_alerts sv 0 als (0, out)) = fst (process_alerts sv 0 als (0, []))"
    for sv als out
    by (simp add: process_alerts_count)
  with assms False show ?thesis
    by (simp add: monitor_whale_activity_def Let_def case_prod_unfold)
qed

lemma printed_correlations: "printed_alerts (map CorrelationPrinted cs) = []"
  by (induction cs) (simp_all add: printed_alerts_def)

lemma sleeps_correlations: "sleeps (map CorrelationPrinted cs) = []"
  by (induction cs) (simp_all add: sleeps_def)

lemma monitor_printed:
  assumes "fault env = None"
  shows "printed_alerts (snd (snd (monitor_whale_activity env st))) =
     detect_coordination_patterns (get_recent_whale_activity (fetch env))"
proof (cases "get_recent_whale_activity (fetch env) = []")
  case True
  with assms show ?thesis
    by (simp add: monitor_whale_activity_def detect_coordination_patterns_def printed_alerts_def)
next
  case False
  have "printed_alerts [FoundActivities n] = []" "printed_alerts [NoSuspiciousPatterns] = []"
    "printed_alerts [] = []" for n
    by (simp_all add: printed_alerts_def)
  with assms False show ?thesis
    by (simp add: monitor_whale_activity_def Let_def case_prod_unfold printed_alerts_append
        process_alerts_printed printed_correlations)
qed

lemma monitor_sleeps:
  assumes "fault env = None"
  shows "sleeps (snd (snd (monitor_whale_activity env st))) = []"
proof (cases "get_recent_whale_activity (fetch env) = []")
  case True
  with assms show ?thesis
    by (simp add: monitor_whale_activity_def sleeps_def)
next
  case False
  have "sleeps [FoundActivities n] = []" "sleeps [NoSuspiciousPatterns] = []"
    "sleeps [] = []" for n
    by (simp_all add: sleeps_def)
  with assms False show ?thesis
    by (simp add: monitor_whale_activity_def Let_def case_prod_unfold sleeps_append
        process_alerts_sleeps sleeps_correlations)
qed

lemma detect_pump_and_dump:
  "map alert_type (detect_coordination_patterns pump_and_dump) = [POTENTIAL_PUMP, POTENTIAL_DUMP]"
  by (simp add: detect_coordination_patterns_def pump_and_dump_def row_def
      token_activities_def add_activity_def time_bucket_of_def replace_second_microsecond_def
      entry_of_def token_alerts_def bucket_alerts_def buy_activities_def sell_activities_def
      COORDINATION_THRESHOLD_def rapid_buys_def rapid_sells_def pump_alert_def dump_alert_def)

section \<open>The monitoring loop\<close>

lemma monitor_no_fault_shape:
  assumes "fault env = None"
  obtains n st' out where "monitor_whale_activity env st = (Inr n, st', out)"
    and "scan_count st' = scan_count st" and "sleeps out = []"
proof -
  from monitor_no_fault [OF assms, of st] monitor_sleeps [OF assms, of st]
  show ?thesis
    by (intro that [of _ _ "snd (snd (monitor_whale_activity env st))"]) (assumption, simp_all)
qed

lemma scan_loop_step:
  assumes "\<not> interrupted env"
  shows "\<exists>st1 out. scan_loop (env # envs) st tr = scan_loop envs st1 (tr @ out) \<and>
           scan_count st1 = scan_count st + 1 \<and> sleeps out = [SCAN_INTERVAL]"
proof (cases "fault env")
  case None
  with assms have s: "\<not> sleep_interrupted env"
    by (simp add: interrupted_def)
  from None obtain n st' out where
    m: "monitor_whale_activity env (st\<lparr>scan_count := scan_count st + 1\<rparr>) = (Inr n, st', out)"
    and c: "scan_count st' = scan_count (st\<lparr>scan_count := scan_count st + 1\<rparr>)"
    and o: "sleeps out = []"
    by (rule monitor_no_fault_shape)
  have "scan_loop (env # envs) st tr =
      scan_loop envs st'
        (tr @ (out @ [ScanComplete (scan_count st') n (total_alerts st'), Sleep SCAN_INTERVAL]))"
    using m s by simp
  moreover have "sleeps (out @ [ScanComplete (scan_count st') n (total_alerts st'),
      Sleep SCAN_INTERVAL]) = [SCAN_INTERVAL]"
    using o by (simp add: sleeps_append) (simp add: sleeps_def)
  ultimately show ?thesis
    using c by auto
next
  case (Some e)
  with assms have e: "e = StdException" and r: "\<not> retry_sleep_interrupted env"
    by (cases e; simp add: interrupted_def)+
  have "scan_loop (env # envs) st tr =
      scan_loop envs (st\<lparr>scan_count := scan_count st + 1\<rparr>)
        (tr @ [MonitoringError, Sleep SCAN_INTERVAL])"
    using Some e r by (simp add: monitor_fault)
  moreover have "sleeps [MonitoringError, Sleep SCAN_INTERVAL] = [SCAN_INTERVAL]"
    by (simp add: sleeps_def)
  ultimately show ?thesis
    by (intro exI [of _ "st\<lparr>scan_count := scan_count st + 1\<rparr>"]
        exI [of _ "[MonitoringError, Sleep SCAN_INTERVAL]"]) simp
qed

lemma scan_loop_looping:
  assumes "\<forall>env \<in> set envs. \<not> interrupted env"
  shows "\<exists>st' tr'. scan_loop envs st tr = (Looping, st', tr @ tr') \<and>
           scan_count st' = scan_count st + length envs \<and>
           sleeps tr' = replicate (length envs) SCAN_INTERVAL"
  using assms
proof (induction envs arbitrary: st tr)
  case Nil
  then show ?case by (simp add: sleeps_def)
next
  case (Cons env envs)
  from Cons.prems have "\<not> interrupted env" by simp
  from scan_loop_step [OF this, of envs st tr] obtain st1 out where
    s: "scan_loop (env # envs) st tr = scan_loop envs st1 (tr @ out)"
    "scan_count st1 = scan_count st + 1" "sleeps out = [SCAN_INTERVAL]"
    by blast
  from Cons.prems have "\<forall>env \<in> set envs. \<not> interrupted env" by simp
  from Cons.IH [OF this, of st1 "tr @ out"] obtain st' tr' where
    i: "scan_loop envs st1 (tr @ out) = (Looping, st', (tr @ out) @ tr')"
    "scan_count st' = scan_count st1 + length envs"
    "sleeps tr' = replicate (length envs) SCAN_INTERVAL"
    by blast
  show ?case
    using s i
    by (intro exI [of _ st'] exI [of _ "out @ tr'"]) (simp add: sleeps_append)
qed

lemma run_monitoring_loop_looping:
  assumes "\<forall>env \<in> set envs. \<not> interrupted env"
  shows "fst (run_monitoring_loop whales envs st) = Looping"
    and "scan_count (fst (snd (run_monitoring_loop whales envs st))) = scan_count st + length envs"
    and "sleeps (snd (snd (run_monitoring_loop whales envs st))) =
           replicate (length envs) SCAN_INTERVAL"
proof -
  let ?tr = "[MonitoringWhales (length (get_database_whales whales))]"
  from scan_loop_looping [OF assms, of st ?tr] obtain st' tr' where
    i: "scan_loop envs st ?tr = (Looping, st', ?tr @ tr')"
    "scan_count st' = scan_count st + length envs"
    "sleeps tr' = replicate (length envs) SCAN_INTERVAL"
    by blast
  have "sleeps ?tr = []" by (simp add: sleeps_def)
  with i show "fst (run_monitoring_loop whales envs st) = Looping"
    and "scan_count (fst (snd (run_monitoring_loop whales envs st))) = scan_count st + length envs"
    and "sleeps (snd (snd (run_monitoring_loop whales envs st))) =
           replicate (length envs) SCAN_INTERVAL"
    unfolding run_monitoring_loop_def by (simp_all add: sleeps_append del: append.simps)
qed

lemma interrupted_examples:
  "\<not> interrupted store_unreachable" "\<not> interrupted scan_raises"
  "\<not> interrupted second_save_fails" "interrupted operator_interrupt"
  by (simp_all add: interrupted_def store_unreachable_def scan_raises_def second_save_fails_def
      operator_interrupt_def)

lemma interrupted_run_stops:
  "fst (run_monitoring_loop (ConnectFailed :: unit list db_result)
      [store_unreachable, operator_interrupt, store_unreachable] fresh_monitor) = Stopped"
  by (simp add: run_monitoring_loop_def monitor_whale_activity_def store_unreachable_def
      operator_interrupt_def get_recent_whale_activity_def fresh_monitor_def)

section \<open>Two scans over one snapshot\<close>

lemma printed_correlations_append:
  "printed_correlations (xs @ ys) = printed_correlations xs @ printed_correlations ys"
  by (simp add: printed_correlations_def)

lemma printed_correlations_map: "printed_correlations (map CorrelationPrinted cs) = cs"
  by (induction cs) (simp_all add: printed_correlations_def)

lemma process_alerts_correlations:
  "printed_correlations (snd (process_alerts sv i als (n, out))) = printed_correlations out"
  by (induction als arbitrary: i n out)
    (simp_all add: printed_correlations_append, simp_all add: printed_correlations_def)

lemma analyze_Nil: "analyze_wallet_correlations set_order [] = []"
  by (simp add: analyze_wallet_correlations_def)

lemma monitor_printed_correlations:
  assumes "fault env = None"
  shows "printed_correlations (snd (snd (monitor_whale_activity env st))) =
     analyze_wallet_correlations (token_order env) (get_recent_whale_activity (fetch env))"
proof (cases "get_recent_whale_activity (fetch env) = []")
  case True
  with assms show ?thesis
    by (simp add: monitor_whale_activity_def analyze_Nil printed_correlations_def)
next
  case False
  have "printed_correlations [FoundActivities n] = []"
    "printed_correlations [NoSuspiciousPatterns] = []" "printed_correlations [] = []" for n
    by (simp_all add: printed_correlations_def)
  with assms False show ?thesis
    by (simp add: monitor_whale_activity_def Let_def case_prod_unfold
        printed_correlations_append process_alerts_correlations printed_correlations_map)
qed

lemma detect_pump_with_pair:
  "map alert_type (detect_coordination_patterns pump_with_pair) = [POTENTIAL_PUMP]"
  by (simp add: detect_coordination_patterns_def pump_with_pair_def row_def
      token_activities_def add_activity_def time_bucket_of_def replace_second_microsecond_def
      entry_of_def token_alerts_def bucket_alerts_def buy_activities_def sell_activities_def
      COORDINATION_THRESHOLD_def rapid_buys_def rapid_sells_def pump_alert_def dump_alert_def)

lemma analyze_pump_with_pair:
  "analyze_wallet_correlations id pump_with_pair =
     [\<lparr>wallet_a = ''0xa'', wallet_b = ''0xb'', common_tokens = [''PEPE'', ''UNI''],
       time_correlations = 4, correlation_score = 1, suspicion_level = HIGH\<rparr>]"
  "analyze_wallet_correlations rev pump_with_pair =
     [\<lparr>wallet_a = ''0xa'', wallet_b = ''0xb'', common_tokens = [''UNI'', ''PEPE''],
       time_correlations = 4, correlation_score = 1, suspicion_level = HIGH\<rparr>]"
  by (simp_all add: analyze_wallet_correlations_def pump_with_pair_def row_def
      wallet_activities_def add_wallet_activity_def pair_correlation_def tokens_of_def
      intersection_def times_in_def count_time_correlations_def total_seconds_def
      microseconds_def)

lemma monitor_result:
  assumes "fault env = None"
  shows "fst (monitor_whale_activity env st) =
     Inr (length (filter (\<lambda>k. save_alert_to_database (saves env k))
       [0..<length (detect_coordination_patterns (get_recent_whale_activity (fetch env)))]))"
proof -
  have "fst (monitor_whale_activity env st) =
      Inr (fst (process_alerts (saves env) 0
        (detect_coordination_patterns (get_recent_whale_activity (fetch env))) (0, [])))"
    using monitor_no_fault [OF assms, of st] by (metis fst_conv)
  then show ?thesis
    by (simp add: process_alerts_count)
qed

lemma run_results:
  "fst (monitor_whale_activity first_run fresh_monitor) = Inr 1"
  "fst (monitor_whale_activity second_run busy_monitor) = Inr 0"
proof -
  have l: "length (detect_coordination_patterns pump_with_pair) = 1"
    using arg_cong [OF detect_pump_with_pair, of length] by simp
  have f: "fault first_run = None" "fault second_run = None"
    "get_recent_whale_activity (fetch first_run) = pump_with_pair"
    "get_recent_whale_activity (fetch second_run) = pump_with_pair"
    by (simp_all add: first_run_def second_run_def get_recent_whale_activity_def)
  show "fst (monitor_whale_activity first_run fresh_monitor) = Inr 1"
    unfolding monitor_result [OF f(1)] f l
    by (simp add: first_run_def save_alert_to_database_def)
  show "fst (monitor_whale_activity second_run busy_monitor) = Inr 0"
    unfolding monitor_result [OF f(2)] f l
    by (simp add: second_run_def save_alert_to_database_def)
qed

section \<open>Claims\<close>

text \<open>
  C3: the grouping loop of \<open>detect_coordination_patterns\<close> neither drops nor duplicates
  an activity: the multiset of bucketed entries, each with the token and time bucket it is
  stored under, is the image of the input; every (token, time bucket) key occurs once, so
  an activity lies in exactly one bucket; and in any reordering of the input, two
  activities with the same token and the same minute-truncated timestamp are stored in
  the same bucket.
\<close>

theorem bucketing_exact:
  "mset (bucket_items (token_activities acts)) =
     image_mset (\<lambda>a. (coin_symbol a, time_bucket_of a, entry_of a)) (mset acts) \<and>
   distinct (bucket_keys (token_activities acts)) \<and>
   (\<forall>acts'. mset acts' = mset acts \<longrightarrow>
      (\<forall>a \<in> set acts. \<forall>b \<in> set acts.
         coin_symbol a = coin_symbol b \<and> time_bucket_of a = time_bucket_of b \<longrightarrow>
         (\<exists>tbs es. (coin_symbol a, tbs) \<in> set (token_activities acts') \<and>
            (time_bucket_of a, es) \<in> set tbs \<and>
            entry_of a \<in> set es \<and> entry_of b \<in> set es)))"
proof (intro conjI allI impI ballI)
  show "mset (bucket_items (token_activities acts)) =
     image_mset (\<lambda>a. (coin_symbol a, time_bucket_of a, entry_of a)) (mset acts)"
    by (simp add: token_activities_def mset_items_fold bucket_items_Nil)
next
  show "distinct (bucket_keys (token_activities acts))"
    by (rule distinct_bucket_keys [OF wf_token_activities])
next
  fix acts' a b
  assume p: "mset acts' = mset acts" and a: "a \<in> set acts" and b: "b \<in> set acts"
    and k: "coin_symbol a = coin_symbol b \<and> time_bucket_of a = time_bucket_of b"
  let ?es = "bucket_of acts' (coin_symbol a) (time_bucket_of a)"
  from p have "set acts' = set acts" by (rule mset_eq_setD)
  with a b k have in_es: "entry_of a \<in> set ?es" "entry_of b \<in> set ?es"
    by (auto simp: bucket_of_def)
  then have "?es \<noteq> []" by auto
  then obtain tbs where
    "(coin_symbol a, tbs) \<in> set (token_activities acts')" "(time_bucket_of a, ?es) \<in> set tbs"
    using wf_lookup [OF wf_token_activities [of acts'], where tok = "coin_symbol a"
        and tb = "time_bucket_of a"]
    by (auto simp: bucket_lookup_token_activities)
  with in_es show "\<exists>tbs es. (coin_symbol a, tbs) \<in> set (token_activities acts') \<and>
            (time_bucket_of a, es) \<in> set tbs \<and>
            entry_of a \<in> set es \<and> entry_of b \<in> set es"
    by blast
qed


theorem bucketing_exact_witness:
  "mset (bucket_items (token_activities three_rows)) =
     image_mset (\<lambda>a. (coin_symbol a, time_bucket_of a, entry_of a)) (mset three_rows) \<and>
   distinct (bucket_keys (token_activities three_rows)) \<and>
   mset (rev three_rows) = mset three_rows \<and>
   three_rows ! 0 \<in> set three_rows \<and> three_rows ! 2 \<in> set three_rows \<and>
   coin_symbol (three_rows ! 0) = coin_symbol (three_rows ! 2) \<and>
   time_bucket_of (three_rows ! 0) = time_bucket_of (three_rows ! 2) \<and>
   block_timestamp (three_rows ! 0) \<noteq> block_timestamp (three_rows ! 2) \<and>
   (\<exists>tbs es. (''PEPE'', tbs) \<in> set (token_activities (rev three_rows)) \<and>
      (minute0, es) \<in> set tbs \<and>
      entry_of (three_rows ! 0) \<in> set es \<and> entry_of (three_rows ! 2) \<in> set es)"
proof -
  have h1: "mset (rev three_rows) = mset three_rows" by simp
  have h2: "three_rows ! 0 \<in> set three_rows" "three_rows ! 2 \<in> set three_rows"
    by (simp_all add: three_rows_def)
  have h3: "coin_symbol (three_rows ! 0) = coin_symbol (three_rows ! 2) \<and>
      time_bucket_of (three_rows ! 0) = time_bucket_of (three_rows ! 2)"
    by (simp add: three_rows_def row_def time_bucket_of_def replace_second_microsecond_def)
  have h4: "block_timestamp (three_rows ! 0) \<noteq> block_timestamp (three_rows ! 2)"
    by (simp add: three_rows_def row_def)
  have k: "coin_symbol (three_rows ! 0) = ''PEPE''" "time_bucket_of (three_rows ! 0) = minute0"
    by (simp_all add: three_rows_def row_def time_bucket_of_def replace_second_microsecond_def
        minute0_def)
  from bucketing_exact [of three_rows] h1 h2 h3
  have "\<exists>tbs es. (coin_symbol (three_rows ! 0), tbs) \<in> set (token_activities (rev three_rows)) \<and>
      (time_bucket_of (three_rows ! 0), es) \<in> set tbs \<and>
      entry_of (three_rows ! 0) \<in> set es \<and> entry_of (three_rows ! 2) \<in> set es"
    by blast
  with bucketing_exact [of three_rows] h1 h2 h3 h4 show ?thesis
    unfolding k by blast
qed

text \<open>
  C1: when the activities of a token in a minute number at least 3 and its buy-like
  activities (kind buy or transfer) at least 5, \<open>detect_coordination_patterns\<close> emits a
  POTENTIAL_PUMP alert for that token and minute whose whale count is the number of distinct
  wallets among the buy-like activities, whose confidence is the minimum of that number
  divided by 5 and 1, and whose total volume is the sum of their USD amounts; with 5
  distinct wallets the whale count is 5 and the confidence is 1.
\<close>

theorem pump_alert_emitted:
  assumes "3 \<le> length (group_of acts tok tb)"
    and "5 \<le> length (filter buy_like (group_of acts tok tb))"
  shows "\<exists>al \<in> set (detect_coordination_patterns acts).
      alert_type al = POTENTIAL_PUMP \<and> token al = tok \<and> alert_time al = tb \<and>
      whale_count al = card (wallet_address ` set (filter buy_like (group_of acts tok tb))) \<and>
      confidence al =
        min (real (card (wallet_address ` set (filter buy_like (group_of acts tok tb)))) / 5) 1 \<and>
      total_volume al = sum_list (map amount_usd (filter buy_like (group_of acts tok tb))) \<and>
      (card (wallet_address ` set (filter buy_like (group_of acts tok tb))) = 5 \<longrightarrow>
         whale_count al = 5 \<and> confidence al = 1)"
proof -
  let ?buys = "filter buy_like (group_of acts tok tb)"
  let ?al = "pump_alert tok tb (map entry_of ?buys)"
  have m: "?al \<in> set (detect_coordination_patterns acts)"
    using assms by (rule pump_in_detect)
  have w: "whale_count ?al = card (wallet_address ` set ?buys)"
    by (simp only: pump_alert_sel unique_wallets_map)
  have c: "confidence ?al = min (real (card (wallet_address ` set ?buys)) / 5) 1"
    by (simp only: pump_alert_sel unique_wallets_map)
  have v: "total_volume ?al = sum_list (map amount_usd ?buys)"
    by (simp only: pump_alert_sel volume_map)
  have s: "card (wallet_address ` set ?buys) = 5 \<longrightarrow> whale_count ?al = 5 \<and> confidence ?al = 1"
    unfolding w c by simp
  show ?thesis
    using m w c v s by (intro bexI [of _ ?al] conjI) (simp_all only: pump_alert_sel)
qed

theorem pump_alert_emitted_witness:
  "3 \<le> length (group_of five_buys ''PEPE'' minute0) \<and>
   5 \<le> length (filter buy_like (group_of five_buys ''PEPE'' minute0)) \<and>
   (\<exists>al \<in> set (detect_coordination_patterns five_buys).
      alert_type al = POTENTIAL_PUMP \<and> token al = ''PEPE'' \<and> alert_time al = minute0 \<and>
      whale_count al = 5 \<and> confidence al = 1 \<and> total_volume al = 10000)"
proof -
  have g: "group_of five_buys ''PEPE'' minute0 = five_buys"
    by (simp add: group_of_def five_buys_def row_def time_bucket_of_def
        replace_second_microsecond_def minute0_def)
  have b: "filter buy_like five_buys = five_buys"
    by (simp add: five_buys_def row_def buy_like_def)
  have h1: "3 \<le> length (group_of five_buys ''PEPE'' minute0)"
    unfolding g by (simp add: five_buys_def)
  have h2: "5 \<le> length (filter buy_like (group_of five_buys ''PEPE'' minute0))"
    unfolding g b by (simp add: five_buys_def)
  have c: "card (wallet_address ` set five_buys) = 5"
    by (simp add: five_buys_def row_def)
  have v: "sum_list (map amount_usd five_buys) = 10000"
    by (simp add: five_buys_def row_def)
  from pump_alert_emitted [OF h1 h2] obtain al where
    "al \<in> set (detect_coordination_patterns five_buys)"
    "alert_type al = POTENTIAL_PUMP" "token al = ''PEPE''" "alert_time al = minute0"
    "whale_count al = 5" "confidence al = 1" "total_volume al = 10000"
    unfolding g b c v by blast
  then have "\<exists>al \<in> set (detect_coordination_patterns five_buys).
      alert_type al = POTENTIAL_PUMP \<and> token al = ''PEPE'' \<and> alert_time al = minute0 \<and>
      whale_count al = 5 \<and> confidence al = 1 \<and> total_volume al = 10000"
    by blast
  with h1 h2 show ?thesis by blast
qed



text \<open>
  C4: for a token and minute with at least 3 activities, a POTENTIAL_DUMP alert for that
  token and minute is emitted if and only if at least 4 of the activities are sells. The
  witness is the bucket of 4 wallets buying and 3 wallets selling, which yields no
  POTENTIAL_DUMP alert.
\<close>

theorem dump_alert_iff:
  assumes "3 \<le> length (group_of acts tok tb)"
  shows "(\<exists>al \<in> set (detect_coordination_patterns acts).
      alert_type al = POTENTIAL_DUMP \<and> token al = tok \<and> alert_time al = tb) \<longleftrightarrow>
   4 \<le> length (filter sell_like (group_of acts tok tb))"
  using assms by (simp add: dump_in_detect_iff)

theorem dump_alert_iff_witness:
  "3 \<le> length (group_of four_buys_three_sells ''PEPE'' minute0) \<and>
   length (filter buy_like (group_of four_buys_three_sells ''PEPE'' minute0)) = 4 \<and>
   card (wallet_address ` set (filter buy_like (group_of four_buys_three_sells ''PEPE'' minute0))) = 4 \<and>
   length (filter sell_like (group_of four_buys_three_sells ''PEPE'' minute0)) = 3 \<and>
   card (wallet_address ` set (filter sell_like (group_of four_buys_three_sells ''PEPE'' minute0))) = 3 \<and>
   \<not> (\<exists>al \<in> set (detect_coordination_patterns four_buys_three_sells).
      alert_type al = POTENTIAL_DUMP \<and> token al = ''PEPE'' \<and> alert_time al = minute0) \<and>
   \<not> (\<exists>al \<in> set (detect_coordination_patterns four_buys_three_sells).
      alert_type al = POTENTIAL_DUMP)"
proof -
  have g: "group_of four_buys_three_sells ''PEPE'' minute0 = four_buys_three_sells"
    by (simp add: group_of_def four_buys_three_sells_def row_def time_bucket_of_def
        replace_second_microsecond_def minute0_def)
  have h: "3 \<le> length (group_of four_buys_three_sells ''PEPE'' minute0)"
    unfolding g by (simp add: four_buys_three_sells_def)
  have b: "length (filter buy_like four_buys_three_sells) = 4"
    "card (wallet_address ` set (filter buy_like four_buys_three_sells)) = 4"
    by (simp_all add: four_buys_three_sells_def row_def buy_like_def)
  have s: "length (filter sell_like four_buys_three_sells) = 3"
    "card (wallet_address ` set (filter sell_like four_buys_three_sells)) = 3"
    by (simp_all add: four_buys_three_sells_def row_def sell_like_def)
  have n: "\<not> (\<exists>al \<in> set (detect_coordination_patterns four_buys_three_sells).
      alert_type al = POTENTIAL_DUMP \<and> token al = ''PEPE'' \<and> alert_time al = minute0)"
    using dump_alert_iff [OF h] unfolding g s by simp
  have a: "\<not> (\<exists>al \<in> set (detect_coordination_patterns four_buys_three_sells).
      alert_type al = POTENTIAL_DUMP)"
    by (simp add: no_alerts_four_buys_three_sells)
  from h b s n a show ?thesis
    unfolding g by blast
qed



text \<open>
  C9: the pump test counts buy-like activities, not wallets: when a single wallet makes at
  least 5 buys of one token within one minute and nothing else is in the input, a
  POTENTIAL_PUMP alert is emitted with whale count 1 and confidence 1/5.
\<close>

theorem single_wallet_pump:
  assumes "5 \<le> length acts"
    and "\<forall>a \<in> set acts. wallet_address a = w \<and> coin_symbol a = tok \<and>
           time_bucket_of a = tb \<and> activity_type a = ''buy''"
  shows "\<exists>al \<in> set (detect_coordination_patterns acts).
      alert_type al = POTENTIAL_PUMP \<and> token al = tok \<and> alert_time al = tb \<and>
      whale_count al = 1 \<and> confidence al = 1 / 5"
proof -
  have g: "group_of acts tok tb = acts"
    using assms(2) by (simp add: group_of_def)
  have b: "filter buy_like acts = acts"
    using assms(2) by (simp add: buy_like_def)
  from assms(1) obtain a where "a \<in> set acts" by (cases acts) auto
  with assms(2) have "wallet_address ` set acts = {w}" by force
  then have c: "card (wallet_address ` set acts) = 1" by simp
  let ?al = "pump_alert tok tb (map entry_of acts)"
  have "?al \<in> set (detect_coordination_patterns acts)"
    using pump_in_detect [of acts tok tb] assms(1) unfolding g b by simp
  moreover have "whale_count ?al = 1" "confidence ?al = 1 / 5"
    by (simp_all add: pump_alert_sel unique_wallets_map c)
  ultimately show ?thesis
    by (intro bexI [of _ ?al] conjI) (simp_all only: pump_alert_sel)
qed



theorem single_wallet_pump_witness:
  "5 \<le> length one_wallet_five_buys \<and>
   wallet_address ` set one_wallet_five_buys = {''0xa''} \<and>
   coin_symbol ` set one_wallet_five_buys = {''PEPE''} \<and>
   time_bucket_of ` set one_wallet_five_buys = {minute0} \<and>
   activity_type ` set one_wallet_five_buys = {''buy''} \<and>
   (\<exists>al \<in> set (detect_coordination_patterns one_wallet_five_buys).
      alert_type al = POTENTIAL_PUMP \<and> token al = ''PEPE'' \<and> alert_time al = minute0 \<and>
      whale_count al = 1 \<and> confidence al = 1 / 5)"
proof -
  have h1: "5 \<le> length one_wallet_five_buys"
    by (simp add: one_wallet_five_buys_def)
  have i: "wallet_address ` set one_wallet_five_buys = {''0xa''}"
    "coin_symbol ` set one_wallet_five_buys = {''PEPE''}"
    "time_bucket_of ` set one_wallet_five_buys = {minute0}"
    "activity_type ` set one_wallet_five_buys = {''buy''}"
    by (simp_all add: one_wallet_five_buys_def row_def time_bucket_of_def
        replace_second_microsecond_def minute0_def)
  have h2: "\<forall>a \<in> set one_wallet_five_buys. wallet_address a = ''0xa'' \<and>
      coin_symbol a = ''PEPE'' \<and> time_bucket_of a = minute0 \<and> activity_type a = ''buy''"
    by (simp add: one_wallet_five_buys_def row_def time_bucket_of_def
        replace_second_microsecond_def minute0_def)
  from single_wallet_pump [OF h1 h2] have "\<exists>al \<in> set (detect_coordination_patterns one_wallet_five_buys).
      alert_type al = POTENTIAL_PUMP \<and> token al = ''PEPE'' \<and> alert_time al = minute0 \<and>
      whale_count al = 1 \<and> confidence al = 1 / 5" .
  with h1 i show ?thesis
    by (intro conjI)
qed

text \<open>
  C5: for two distinct wallets that share at least 2 tokens, \<open>analyze_wallet_correlations\<close>
  reports a correlation for the pair if and only if at least 2 pairs of timestamps, one
  from each wallet's activities on the shared tokens, are at most 300 seconds apart, every
  such pair counted; the reported count is that number, the score is the minimum of the
  count divided by the larger number of timestamps and 1, and the level is HIGH exactly
  when the score is above 7/10, MEDIUM otherwise (so MEDIUM at exactly 7/10).
\<close>

theorem correlation_emitted_iff:
  assumes "w \<noteq> w'" and "2 \<le> card (shared_tokens acts w w')"
  shows "((\<exists>c \<in> set (analyze_wallet_correlations set_order acts).
             {wallet_a c, wallet_b c} = {w, w'}) \<longleftrightarrow>
          2 \<le> close_pairs (shared_times acts w w') (shared_times acts w' w)) \<and>
         (\<forall>c \<in> set (analyze_wallet_correlations set_order acts).
            {wallet_a c, wallet_b c} = {w, w'} \<longrightarrow>
            time_correlations c = close_pairs (shared_times acts w w') (shared_times acts w' w) \<and>
            correlation_score c =
              min (real (close_pairs (shared_times acts w w') (shared_times acts w' w)) /
                   real (max (length (shared_times acts w w')) (length (shared_times acts w' w)))) 1 \<and>
            (suspicion_level c = HIGH \<longleftrightarrow> 7 / 10 < correlation_score c) \<and>
            (suspicion_level c = MEDIUM \<longleftrightarrow> correlation_score c \<le> 7 / 10))"
proof (intro conjI ballI impI)
  show "(\<exists>c \<in> set (analyze_wallet_correlations set_order acts).
             {wallet_a c, wallet_b c} = {w, w'}) \<longleftrightarrow>
          2 \<le> close_pairs (shared_times acts w w') (shared_times acts w' w)"
    using analyze_pair(2) analyze_pair_exists [OF assms] by blast
next
  fix c
  assume c: "c \<in> set (analyze_wallet_correlations set_order acts)"
    "{wallet_a c, wallet_b c} = {w, w'}"
  note f = analyze_pair(3,4,5) [OF c]
  show "time_correlations c = close_pairs (shared_times acts w w') (shared_times acts w' w)"
    using f(1) by (simp only: correlation_of_sel)
  show s: "correlation_score c =
      min (real (close_pairs (shared_times acts w w') (shared_times acts w' w)) /
           real (max (length (shared_times acts w w')) (length (shared_times acts w' w)))) 1"
    using f(2) by (simp only: correlation_of_sel)
  have l: "suspicion_level c = (if 7 / 10 < correlation_score c then HIGH else MEDIUM)"
    using f(2,3) by (simp only: correlation_of_sel(5))
  show "suspicion_level c = HIGH \<longleftrightarrow> 7 / 10 < correlation_score c"
    unfolding l by simp
  show "suspicion_level c = MEDIUM \<longleftrightarrow> correlation_score c \<le> 7 / 10"
    unfolding l by auto
qed

theorem correlation_emitted_iff_witness:
  "''0xa'' \<noteq> ''0xb'' \<and>
   2 \<le> card (shared_tokens seven_of_ten ''0xa'' ''0xb'') \<and>
   close_pairs (shared_times seven_of_ten ''0xa'' ''0xb'')
     (shared_times seven_of_ten ''0xb'' ''0xa'') = 7 \<and>
   (\<exists>c \<in> set (analyze_wallet_correlations (\<lambda>xs. xs) seven_of_ten).
      {wallet_a c, wallet_b c} = {''0xa'', ''0xb''} \<and> time_correlations c = 7 \<and>
      correlation_score c = 7 / 10 \<and> suspicion_level c = MEDIUM) \<and>
   2 \<le> card (shared_tokens two_by_two ''0xa'' ''0xb'') \<and>
   (\<exists>c \<in> set (analyze_wallet_correlations (\<lambda>xs. xs) two_by_two).
      {wallet_a c, wallet_b c} = {''0xa'', ''0xb''} \<and> time_correlations c = 4 \<and>
      correlation_score c = 1 \<and> suspicion_level c = HIGH)"
proof -
  have n: "''0xa'' \<noteq> ''0xb''" by simp
  have h: "2 \<le> card (shared_tokens seven_of_ten ''0xa'' ''0xb'')"
    by (simp add: seven_of_ten_tokens)
  have h': "2 \<le> card (shared_tokens two_by_two ''0xa'' ''0xb'')"
    by (simp add: two_by_two_tokens)
  note t = correlation_emitted_iff [OF n h, of "\<lambda>xs. xs"]
  note t' = correlation_emitted_iff [OF n h', of "\<lambda>xs. xs"]
  from t obtain c where c: "c \<in> set (analyze_wallet_correlations (\<lambda>xs. xs) seven_of_ten)"
    "{wallet_a c, wallet_b c} = {''0xa'', ''0xb''}"
    unfolding seven_of_ten_close by auto
  with t have "time_correlations c = 7" "correlation_score c = 7 / 10"
    "suspicion_level c = MEDIUM \<longleftrightarrow> correlation_score c \<le> 7 / 10"
    unfolding seven_of_ten_close seven_of_ten_lengths by auto
  with c have r: "\<exists>c \<in> set (analyze_wallet_correlations (\<lambda>xs. xs) seven_of_ten).
      {wallet_a c, wallet_b c} = {''0xa'', ''0xb''} \<and> time_correlations c = 7 \<and>
      correlation_score c = 7 / 10 \<and> suspicion_level c = MEDIUM"
    by auto
  from t' obtain d where d: "d \<in> set (analyze_wallet_correlations (\<lambda>xs. xs) two_by_two)"
    "{wallet_a d, wallet_b d} = {''0xa'', ''0xb''}"
    unfolding two_by_two_close by auto
  with t' have "time_correlations d = 4" "correlation_score d = 1"
    "suspicion_level d = HIGH \<longleftrightarrow> 7 / 10 < correlation_score d"
    unfolding two_by_two_close two_by_two_lengths by auto
  with d have r': "\<exists>c \<in> set (analyze_wallet_correlations (\<lambda>xs. xs) two_by_two).
      {wallet_a c, wallet_b c} = {''0xa'', ''0xb''} \<and> time_correlations c = 4 \<and>
      correlation_score c = 1 \<and> suspicion_level c = HIGH"
    by auto
  from n h seven_of_ten_close r h' r' show ?thesis
    by (intro conjI)
qed

text \<open>
  C6: when two wallets share fewer than 2 tokens, \<open>analyze_wallet_correlations\<close> reports
  no correlation for the pair, whatever the timestamps. In the witness all activities
  carry the same timestamp.
\<close>

theorem no_correlation_below_two_tokens:
  assumes "card (shared_tokens acts w w') < 2"
  shows "\<not> (\<exists>c \<in> set (analyze_wallet_correlations set_order acts).
            {wallet_a c, wallet_b c} = {w, w'})"
  using assms analyze_pair(1) [of _ set_order acts w w'] by force

theorem no_correlation_below_two_tokens_witness:
  "card (shared_tokens one_common ''0xa'' ''0xb'') < 2 \<and>
   block_timestamp ` set one_common = {\<lparr>dt_minutes = 0, dt_second = 0, dt_microsecond = 0\<rparr>} \<and>
   \<not> (\<exists>c \<in> set (analyze_wallet_correlations (\<lambda>xs. xs) one_common).
         {wallet_a c, wallet_b c} = {''0xa'', ''0xb''}) \<and>
   analyze_wallet_correlations (\<lambda>xs. xs) one_common = []"
proof -
  have h: "card (shared_tokens one_common ''0xa'' ''0xb'') < 2"
    by (simp add: one_common_tokens)
  have t: "block_timestamp ` set one_common = {\<lparr>dt_minutes = 0, dt_second = 0, dt_microsecond = 0\<rparr>}"
    by (simp add: one_common_def trade_def)
  from no_correlation_below_two_tokens [OF h, of "\<lambda>xs. xs"] h t one_common_none
  show ?thesis by (intro conjI)
qed

text \<open>
  C2: every confidence of an alert of \<open>detect_coordination_patterns\<close> and every score of
  a correlation of \<open>analyze_wallet_correlations\<close> lies between 0 and 1; each is the minimum
  of its ratio (distinct wallets over the threshold 5 or 4; close timestamp pairs over the
  larger number of timestamps) and 1, so it is exactly 1 as soon as the ratio reaches 1.
  The witness has 10 distinct wallets against the threshold 5.
\<close>

theorem scores_clamped:
  "(\<forall>al \<in> set (detect_coordination_patterns acts).
      0 \<le> confidence al \<and> confidence al \<le> 1 \<and>
      (alert_type al = POTENTIAL_PUMP \<longrightarrow> confidence al = min (real (whale_count al) / 5) 1) \<and>
      (alert_type al = POTENTIAL_DUMP \<longrightarrow> confidence al = min (real (whale_count al) / 4) 1) \<and>
      (alert_type al = POTENTIAL_PUMP \<and> 1 \<le> real (whale_count al) / 5 \<longrightarrow> confidence al = 1) \<and>
      (alert_type al = POTENTIAL_DUMP \<and> 1 \<le> real (whale_count al) / 4 \<longrightarrow> confidence al = 1)) \<and>
   (\<forall>c \<in> set (analyze_wallet_correlations set_order acts).
      0 \<le> correlation_score c \<and> correlation_score c \<le> 1 \<and>
      correlation_score c =
        min (real (time_correlations c) /
             real (max (length (shared_times acts (wallet_a c) (wallet_b c)))
                       (length (shared_times acts (wallet_b c) (wallet_a c))))) 1 \<and>
      (1 \<le> real (time_correlations c) /
             real (max (length (shared_times acts (wallet_a c) (wallet_b c)))
                       (length (shared_times acts (wallet_b c) (wallet_a c)))) \<longrightarrow>
         correlation_score c = 1))"
proof (intro conjI ballI)
  fix al
  assume "al \<in> set (detect_coordination_patterns acts)"
  then consider tok tb es where "al = pump_alert tok tb es"
    | tok tb es where "al = dump_alert tok tb es"
    using detect_cases by blast
  then have a: "0 \<le> confidence al \<and> confidence al \<le> 1 \<and>
      (alert_type al = POTENTIAL_PUMP \<longrightarrow> confidence al = min (real (whale_count al) / 5) 1) \<and>
      (alert_type al = POTENTIAL_DUMP \<longrightarrow> confidence al = min (real (whale_count al) / 4) 1)"
    by cases (simp_all add: pump_alert_sel dump_alert_sel)
  then show "0 \<le> confidence al" "confidence al \<le> 1"
    "alert_type al = POTENTIAL_PUMP \<longrightarrow> confidence al = min (real (whale_count al) / 5) 1"
    "alert_type al = POTENTIAL_DUMP \<longrightarrow> confidence al = min (real (whale_count al) / 4) 1"
    by blast+
  from a show "alert_type al = POTENTIAL_PUMP \<and> 1 \<le> real (whale_count al) / 5 \<longrightarrow> confidence al = 1"
    by auto
  from a show "alert_type al = POTENTIAL_DUMP \<and> 1 \<le> real (whale_count al) / 4 \<longrightarrow> confidence al = 1"
    by auto
next
  fix c
  assume "c \<in> set (analyze_wallet_correlations set_order acts)"
  then obtain w w' where c: "c = correlation_of set_order acts w w'"
    unfolding analyze_set by blast
  show s: "correlation_score c =
        min (real (time_correlations c) /
             real (max (length (shared_times acts (wallet_a c) (wallet_b c)))
                       (length (shared_times acts (wallet_b c) (wallet_a c))))) 1"
    unfolding c by (simp only: correlation_of_sel)
  show "0 \<le> correlation_score c" "correlation_score c \<le> 1"
    unfolding s by simp_all
  show "1 \<le> real (time_correlations c) /
             real (max (length (shared_times acts (wallet_a c) (wallet_b c)))
                       (length (shared_times acts (wallet_b c) (wallet_a c)))) \<longrightarrow>
         correlation_score c = 1"
    unfolding s by simp
qed

theorem scores_clamped_witness:
  "(\<exists>al \<in> set (detect_coordination_patterns ten_buys).
      alert_type al = POTENTIAL_PUMP \<and> whale_count al = 10 \<and>
      real (whale_count al) / 5 = 2 \<and> confidence al = 1) \<and>
   (\<exists>c \<in> set (analyze_wallet_correlations (\<lambda>xs. xs) two_by_two).
      real (time_correlations c) /
        real (max (length (shared_times two_by_two (wallet_a c) (wallet_b c)))
                  (length (shared_times two_by_two (wallet_b c) (wallet_a c)))) = 2 \<and>
      correlation_score c = 1)"
proof -
  let ?al = "pump_alert ''PEPE'' minute0 (map entry_of ten_buys)"
  have m: "?al \<in> set (detect_coordination_patterns ten_buys)"
    using pump_in_detect [of ten_buys "''PEPE''" minute0]
    unfolding ten_buys_group by (simp add: ten_buys_def)
  have k: "alert_type ?al = POTENTIAL_PUMP" "whale_count ?al = 10"
    by (simp_all add: pump_alert_sel unique_wallets_map ten_buys_wallets)
  then have r: "real (whale_count ?al) / 5 = 2" by simp
  from scores_clamped [of ten_buys "\<lambda>xs. xs"] m k r have "confidence ?al = 1"
    by auto
  with m k r have a: "\<exists>al \<in> set (detect_coordination_patterns ten_buys).
      alert_type al = POTENTIAL_PUMP \<and> whale_count al = 10 \<and>
      real (whale_count al) / 5 = 2 \<and> confidence al = 1"
    by blast
  let ?c = "\<lparr>wallet_a = ''0xa'', wallet_b = ''0xb'', common_tokens = [''UNI'', ''LINK''],
       time_correlations = 4, correlation_score = 1, suspicion_level = HIGH\<rparr>"
  have n: "?c \<in> set (analyze_wallet_correlations (\<lambda>xs. xs) two_by_two)"
    by (simp add: analyze_two_by_two)
  have q: "real (time_correlations ?c) /
        real (max (length (shared_times two_by_two (wallet_a ?c) (wallet_b ?c)))
                  (length (shared_times two_by_two (wallet_b ?c) (wallet_a ?c)))) = 2"
    by (simp add: two_by_two_lengths)
  from scores_clamped [of two_by_two "\<lambda>xs. xs"] n have
    "1 \<le> real (time_correlations ?c) /
        real (max (length (shared_times two_by_two (wallet_a ?c) (wallet_b ?c)))
                  (length (shared_times two_by_two (wallet_b ?c) (wallet_a ?c)))) \<longrightarrow>
     correlation_score ?c = 1"
    by blast
  with q have "correlation_score ?c = 1" by simp
  with n q have b: "\<exists>c \<in> set (analyze_wallet_correlations (\<lambda>xs. xs) two_by_two).
      real (time_correlations c) /
        real (max (length (shared_times two_by_two (wallet_a c) (wallet_b c)))
                  (length (shared_times two_by_two (wallet_b c) (wallet_a c)))) = 2 \<and>
      correlation_score c = 1"
    by blast
  from a b show ?thesis by (rule conjI)
qed

text \<open>
  C10: a scan that raises nothing returns the number of coordination alerts whose save
  succeeded and adds that number to \<open>total_alerts\<close>; every alert is printed, also one
  whose save failed. In the witness the first of two alerts is saved and the second is not.
\<close>

theorem scan_counts_saved_alerts:
  assumes "fault env = None" and "monitor_whale_activity env st = (res, st', out)"
  shows "res = Inr (length (filter (\<lambda>k. save_alert_to_database (saves env k))
             [0..<length (detect_coordination_patterns (get_recent_whale_activity (fetch env)))])) \<and>
         total_alerts st' = total_alerts st +
           length (filter (\<lambda>k. save_alert_to_database (saves env k))
             [0..<length (detect_coordination_patterns (get_recent_whale_activity (fetch env)))]) \<and>
         printed_alerts out =
           detect_coordination_patterns (get_recent_whale_activity (fetch env))"
proof -
  let ?alerts = "detect_coordination_patterns (get_recent_whale_activity (fetch env))"
  have n: "fst (process_alerts (saves env) 0 ?alerts (0, [])) =
      length (filter (\<lambda>k. save_alert_to_database (saves env k)) [0..<length ?alerts])"
    by (simp add: process_alerts_count)
  from monitor_no_fault [OF assms(1), of st] assms(2)
  have "res = Inr (fst (process_alerts (saves env) 0 ?alerts (0, [])))"
    "st' = st\<lparr>total_alerts := total_alerts st +
        fst (process_alerts (saves env) 0 ?alerts (0, []))\<rparr>"
    by simp_all
  moreover from monitor_printed [OF assms(1), of st] assms(2)
  have "printed_alerts out = ?alerts" by simp
  ultimately show ?thesis
    unfolding n by simp
qed

theorem scan_counts_saved_alerts_witness:
  "fault second_save_fails = None \<and>
   map alert_type (detect_coordination_patterns (get_recent_whale_activity (fetch second_save_fails)))
     = [POTENTIAL_PUMP, POTENTIAL_DUMP] \<and>
   save_alert_to_database (saves second_save_fails 0) \<and>
   \<not> save_alert_to_database (saves second_save_fails 1) \<and>
   fst (monitor_whale_activity second_save_fails \<lparr>scan_count = 3, total_alerts = 7\<rparr>) = Inr 1 \<and>
   total_alerts (fst (snd (monitor_whale_activity second_save_fails
       \<lparr>scan_count = 3, total_alerts = 7\<rparr>))) = 8 \<and>
   map alert_type (printed_alerts (snd (snd (monitor_whale_activity second_save_fails
       \<lparr>scan_count = 3, total_alerts = 7\<rparr>)))) = [POTENTIAL_PUMP, POTENTIAL_DUMP]"
proof -
  let ?st = "\<lparr>scan_count = 3, total_alerts = 7\<rparr>"
  have h: "fault second_save_fails = None"
    by (simp add: second_save_fails_def)
  have f: "get_recent_whale_activity (fetch second_save_fails) = pump_and_dump"
    by (simp add: second_save_fails_def get_recent_whale_activity_def)
  have s: "save_alert_to_database (saves second_save_fails 0)"
    "\<not> save_alert_to_database (saves second_save_fails 1)"
    by (simp_all add: second_save_fails_def save_alert_to_database_def)
  have l: "length (detect_coordination_patterns pump_and_dump) = 2"
    using arg_cong [OF detect_pump_and_dump, of length] by simp
  have c: "length (filter (\<lambda>k. save_alert_to_database (saves second_save_fails k)) [0..<2]) = 1"
    by (simp add: second_save_fails_def save_alert_to_database_def upt_rec [of 0] upt_rec [of 1])
  obtain res st' out where m: "monitor_whale_activity second_save_fails ?st = (res, st', out)"
    by (cases "monitor_whale_activity second_save_fails ?st")
  from scan_counts_saved_alerts [OF h m]
  have "res = Inr 1" "total_alerts st' = 8"
    "map alert_type (printed_alerts out) = [POTENTIAL_PUMP, POTENTIAL_DUMP]"
    unfolding f l c by (simp_all add: detect_pump_and_dump)
  with h s show ?thesis
    unfolding m f by (simp add: detect_pump_and_dump)
qed

text \<open>
  C7: when the store cannot be reached or a query raises, \<open>get_recent_whale_activity\<close>
  and \<open>get_database_whales\<close> return the empty list; a scan over it returns 0 alerts and
  changes no counter; an exception of class \<open>Exception\<close> raised in a scan is caught by
  the loop, which waits \<open>SCAN_INTERVAL\<close> and goes on with the next scan; the loop is left
  only in an iteration the operator interrupts, and without an interrupt it runs every
  iteration, waiting \<open>SCAN_INTERVAL\<close> once in each.
\<close>

theorem failures_never_stop_the_loop:
  "get_recent_whale_activity ConnectFailed = [] \<and>
   get_recent_whale_activity QueryRaised = [] \<and>
   (get_database_whales ConnectFailed :: 'a list) = [] \<and>
   (get_database_whales QueryRaised :: 'a list) = [] \<and>
   (fault env = None \<and> (fetch env = ConnectFailed \<or> fetch env = QueryRaised) \<longrightarrow>
      monitor_whale_activity env st = (Inr 0, st, [NoRecentActivity])) \<and>
   (fault env = Some StdException \<and> \<not> retry_sleep_interrupted env \<longrightarrow>
      scan_loop (env # envs) st tr =
        scan_loop envs (st\<lparr>scan_count := scan_count st + 1\<rparr>)
          (tr @ [MonitoringError, Sleep SCAN_INTERVAL])) \<and>
   (fst (run_monitoring_loop whales envs st) \<noteq> Looping \<longrightarrow>
      (\<exists>env \<in> set envs. interrupted env)) \<and>
   ((\<forall>env \<in> set envs. \<not> interrupted env) \<longrightarrow>
      fst (run_monitoring_loop whales envs st) = Looping \<and>
      scan_count (fst (snd (run_monitoring_loop whales envs st))) = scan_count st + length envs \<and>
      sleeps (snd (snd (run_monitoring_loop whales envs st))) =
        replicate (length envs) SCAN_INTERVAL)"
proof (intro conjI impI)
  show "get_recent_whale_activity ConnectFailed = []" "get_recent_whale_activity QueryRaised = []"
    by (simp_all add: get_recent_whale_activity_def)
  show "(get_database_whales ConnectFailed :: 'a list) = []"
    "(get_database_whales QueryRaised :: 'a list) = []"
    by (simp_all add: get_database_whales_def)
next
  assume "fault env = None \<and> (fetch env = ConnectFailed \<or> fetch env = QueryRaised)"
  then show "monitor_whale_activity env st = (Inr 0, st, [NoRecentActivity])"
    by (auto simp: monitor_whale_activity_def get_recent_whale_activity_def)
next
  assume "fault env = Some StdException \<and> \<not> retry_sleep_interrupted env"
  then show "scan_loop (env # envs) st tr =
        scan_loop envs (st\<lparr>scan_count := scan_count st + 1\<rparr>)
          (tr @ [MonitoringError, Sleep SCAN_INTERVAL])"
    by (simp add: monitor_fault)
next
  assume "fst (run_monitoring_loop whales envs st) \<noteq> Looping"
  then show "\<exists>env \<in> set envs. interrupted env"
    using run_monitoring_loop_looping(1) [of envs whales st] by blast
next
  assume a: "\<forall>env \<in> set envs. \<not> interrupted env"
  from run_monitoring_loop_looping [OF a, of whales st]
  show "fst (run_monitoring_loop whales envs st) = Looping"
    and "scan_count (fst (snd (run_monitoring_loop whales envs st))) = scan_count st + length envs"
    and "sleeps (snd (snd (run_monitoring_loop whales envs st))) =
        replicate (length envs) SCAN_INTERVAL"
    by simp_all
qed

theorem failures_never_stop_the_loop_witness:
  "fault store_unreachable = None \<and> fetch store_unreachable = ConnectFailed \<and>
   monitor_whale_activity store_unreachable fresh_monitor =
     (Inr 0, fresh_monitor, [NoRecentActivity]) \<and>
   fault scan_raises = Some StdException \<and> \<not> retry_sleep_interrupted scan_raises \<and>
   scan_loop [scan_raises, store_unreachable] fresh_monitor [] =
     scan_loop [store_unreachable] (fresh_monitor\<lparr>scan_count := 1\<rparr>)
       [MonitoringError, Sleep 60] \<and>
   \<not> interrupted store_unreachable \<and> \<not> interrupted scan_raises \<and>
   \<not> interrupted second_save_fails \<and>
   fst (run_monitoring_loop (ConnectFailed :: unit list db_result)
      [store_unreachable, scan_raises, second_save_fails] fresh_monitor) = Looping \<and>
   scan_count (fst (snd (run_monitoring_loop (ConnectFailed :: unit list db_result)
      [store_unreachable, scan_raises, second_save_fails] fresh_monitor))) = 3 \<and>
   sleeps (snd (snd (run_monitoring_loop (ConnectFailed :: unit list db_result)
      [store_unreachable, scan_raises, second_save_fails] fresh_monitor))) = [60, 60, 60] \<and>
   fst (run_monitoring_loop (ConnectFailed :: unit list db_result)
      [store_unreachable, operator_interrupt, store_unreachable] fresh_monitor) = Stopped \<and>
   (\<exists>env \<in> set [store_unreachable, operator_interrupt, store_unreachable]. interrupted env)"
proof -
  have u: "fault store_unreachable = None" "fetch store_unreachable = ConnectFailed"
    by (simp_all add: store_unreachable_def)
  have r: "fault scan_raises = Some StdException" "\<not> retry_sleep_interrupted scan_raises"
    by (simp_all add: scan_raises_def)
  have n: "\<forall>env \<in> set [store_unreachable, scan_raises, second_save_fails]. \<not> interrupted env"
    by (simp add: interrupted_examples)
  have s: "fst (run_monitoring_loop (ConnectFailed :: unit list db_result)
      [store_unreachable, operator_interrupt, store_unreachable] fresh_monitor) \<noteq> Looping"
    by (simp add: interrupted_run_stops)
  note t1 = failures_never_stop_the_loop
    [where env = store_unreachable and st = fresh_monitor and envs = "[]" and tr = "[]"
      and whales = "ConnectFailed :: unit list db_result"]
  from t1 u have a: "monitor_whale_activity store_unreachable fresh_monitor =
     (Inr 0, fresh_monitor, [NoRecentActivity])"
    by blast
  note t2 = failures_never_stop_the_loop
    [where env = scan_raises and st = fresh_monitor and envs = "[store_unreachable]"
      and tr = "[]" and whales = "ConnectFailed :: unit list db_result"]
  from t2 r have "scan_loop [scan_raises, store_unreachable] fresh_monitor [] =
     scan_loop [store_unreachable] (fresh_monitor\<lparr>scan_count := scan_count fresh_monitor + 1\<rparr>)
       ([] @ [MonitoringError, Sleep SCAN_INTERVAL])"
    by blast
  then have b: "scan_loop [scan_raises, store_unreachable] fresh_monitor [] =
     scan_loop [store_unreachable] (fresh_monitor\<lparr>scan_count := 1\<rparr>)
       [MonitoringError, Sleep 60]"
    by (simp add: fresh_monitor_def SCAN_INTERVAL_def)
  note t3 = failures_never_stop_the_loop
    [where envs = "[store_unreachable, scan_raises, second_save_fails]"
      and whales = "ConnectFailed :: unit list db_result" and st = fresh_monitor
      and env = store_unreachable and tr = "[]"]
  from t3 n have c0:
    "fst (run_monitoring_loop (ConnectFailed :: unit list db_result)
      [store_unreachable, scan_raises, second_save_fails] fresh_monitor) = Looping \<and>
    scan_count (fst (snd (run_monitoring_loop (ConnectFailed :: unit list db_result)
      [store_unreachable, scan_raises, second_save_fails] fresh_monitor))) =
      scan_count fresh_monitor + length [store_unreachable, scan_raises, second_save_fails] \<and>
    sleeps (snd (snd (run_monitoring_loop (ConnectFailed :: unit list db_result)
      [store_unreachable, scan_raises, second_save_fails] fresh_monitor))) =
      replicate (length [store_unreachable, scan_raises, second_save_fails]) SCAN_INTERVAL"
    by blast
  have k: "scan_count fresh_monitor + length [store_unreachable, scan_raises, second_save_fails] = 3"
    "replicate (length [store_unreachable, scan_raises, second_save_fails]) SCAN_INTERVAL
       = [60, 60, 60]"
    by (simp_all add: fresh_monitor_def SCAN_INTERVAL_def)
  from c0 have c: "fst (run_monitoring_loop (ConnectFailed :: unit list db_result)
      [store_unreachable, scan_raises, second_save_fails] fresh_monitor) = Looping"
    "scan_count (fst (snd (run_monitoring_loop (ConnectFailed :: unit list db_result)
      [store_unreachable, scan_raises, second_save_fails] fresh_monitor))) = 3"
    "sleeps (snd (snd (run_monitoring_loop (ConnectFailed :: unit list db_result)
      [store_unreachable, scan_raises, second_save_fails] fresh_monitor))) = [60, 60, 60]"
    unfolding k by blast+
  note t4 = failures_never_stop_the_loop
    [where envs = "[store_unreachable, operator_interrupt, store_unreachable]"
      and whales = "ConnectFailed :: unit list db_result" and st = fresh_monitor
      and env = store_unreachable and tr = "[]"]
  from t4 s
  have d: "\<exists>env \<in> set [store_unreachable, operator_interrupt, store_unreachable]. interrupted env"
    by blast
  from u a r b interrupted_examples(1,2,3) c interrupted_run_stops d show ?thesis
    by (intro conjI)
qed

text \<open>
  C8, as stated, fails for \<open>analyze_wallet_correlations\<close>: \<open>list(common_tokens)\<close> lists
  a set of strings in the order the process's string hashing gives, so two runs over the
  same activities, in processes with different hash seeds, can report the common tokens
  of a pair in different orders.
\<close>

theorem common_tokens_order_counterexample:
  "analyze_wallet_correlations id two_by_two \<noteq> analyze_wallet_correlations rev two_by_two"
proof -
  have "map common_tokens (analyze_wallet_correlations id two_by_two) = [[''UNI'', ''LINK'']]"
    unfolding id_def by (simp add: analyze_two_by_two)
  moreover have "map common_tokens (analyze_wallet_correlations rev two_by_two) = [[''LINK'', ''UNI'']]"
    by (simp add: analyze_two_by_two)
  ultimately show ?thesis by auto
qed

text \<open>
  C8, amended: two scans over an identical activity snapshot, whatever the monitor's
  counters, the results of the saves and the operator's interrupts, report identical
  coordination alerts, which are \<open>detect_coordination_patterns\<close> of the snapshot, and
  correlations, which are \<open>analyze_wallet_correlations\<close> of the snapshot, that agree in
  wallets, count, score, suspicion level and set of common tokens; the correlations are
  identical when the two scans list a set in the same order. Only the order of the
  \<open>common_tokens\<close> list depends on anything but the snapshot.
\<close>

theorem rerun_same_snapshot:
  assumes "fault env1 = None" and "fault env2 = None" and "fetch env1 = fetch env2"
    and "\<forall>xs. set (token_order env1 xs) = set xs" and "\<forall>xs. set (token_order env2 xs) = set xs"
  shows "printed_alerts (snd (snd (monitor_whale_activity env1 st1))) =
           detect_coordination_patterns (get_recent_whale_activity (fetch env1)) \<and>
         printed_alerts (snd (snd (monitor_whale_activity env2 st2))) =
           printed_alerts (snd (snd (monitor_whale_activity env1 st1))) \<and>
         printed_correlations (snd (snd (monitor_whale_activity env1 st1))) =
           analyze_wallet_correlations (token_order env1) (get_recent_whale_activity (fetch env1)) \<and>
         printed_correlations (snd (snd (monitor_whale_activity env2 st2))) =
           analyze_wallet_correlations (token_order env2) (get_recent_whale_activity (fetch env1)) \<and>
         map (\<lambda>c. c\<lparr>common_tokens := []\<rparr>)
             (printed_correlations (snd (snd (monitor_whale_activity env2 st2)))) =
         map (\<lambda>c. c\<lparr>common_tokens := []\<rparr>)
             (printed_correlations (snd (snd (monitor_whale_activity env1 st1)))) \<and>
         map (\<lambda>c. set (common_tokens c))
             (printed_correlations (snd (snd (monitor_whale_activity env2 st2)))) =
         map (\<lambda>c. set (common_tokens c))
             (printed_correlations (snd (snd (monitor_whale_activity env1 st1)))) \<and>
         (token_order env2 = token_order env1 \<longrightarrow>
            printed_correlations (snd (snd (monitor_whale_activity env2 st2))) =
            printed_correlations (snd (snd (monitor_whale_activity env1 st1))))"
proof -
  let ?acts = "get_recent_whale_activity (fetch env1)"
  have a1: "printed_alerts (snd (snd (monitor_whale_activity env1 st1))) =
      detect_coordination_patterns ?acts"
    using assms(1) by (rule monitor_printed)
  have a2: "printed_alerts (snd (snd (monitor_whale_activity env2 st2))) =
      detect_coordination_patterns ?acts"
    using monitor_printed [OF assms(2), of st2] assms(3) by simp
  have c1: "printed_correlations (snd (snd (monitor_whale_activity env1 st1))) =
      analyze_wallet_correlations (token_order env1) ?acts"
    using assms(1) by (rule monitor_printed_correlations)
  have c2: "printed_correlations (snd (snd (monitor_whale_activity env2 st2))) =
      analyze_wallet_correlations (token_order env2) ?acts"
    using monitor_printed_correlations [OF assms(2), of st2] assms(3) by simp
  have s: "map (\<lambda>c. c\<lparr>common_tokens := []\<rparr>)
        (analyze_wallet_correlations (token_order env2) ?acts) =
      map (\<lambda>c. c\<lparr>common_tokens := []\<rparr>)
        (analyze_wallet_correlations (token_order env1) ?acts)"
    unfolding map_analyze pair_correlation_order [of "token_order env2" _ _ "token_order env1"] ..
  have t: "map (\<lambda>c. set (common_tokens c))
        (analyze_wallet_correlations (token_order env2) ?acts) =
      map (\<lambda>c. set (common_tokens c))
        (analyze_wallet_correlations (token_order env1) ?acts)"
    unfolding map_analyze pair_correlation_token_sets [OF assms(5) assms(4)] ..
  show ?thesis
    unfolding a1 a2 c1 c2 using s t by simp
qed

theorem rerun_same_snapshot_witness:
  "fault first_run = None \<and> fault second_run = None \<and> fetch first_run = fetch second_run \<and>
   (\<forall>xs. set (token_order first_run xs) = set xs) \<and>
   (\<forall>xs. set (token_order second_run xs) = set xs) \<and>
   fst (monitor_whale_activity first_run fresh_monitor) = Inr 1 \<and>
   fst (monitor_whale_activity second_run busy_monitor) = Inr 0 \<and>
   printed_alerts (snd (snd (monitor_whale_activity second_run busy_monitor))) =
     printed_alerts (snd (snd (monitor_whale_activity first_run fresh_monitor))) \<and>
   map alert_type (printed_alerts (snd (snd (monitor_whale_activity first_run fresh_monitor)))) =
     [POTENTIAL_PUMP] \<and>
   map (\<lambda>c. c\<lparr>common_tokens := []\<rparr>)
       (printed_correlations (snd (snd (monitor_whale_activity second_run busy_monitor)))) =
   map (\<lambda>c. c\<lparr>common_tokens := []\<rparr>)
       (printed_correlations (snd (snd (monitor_whale_activity first_run fresh_monitor)))) \<and>
   map (\<lambda>c. set (common_tokens c))
       (printed_correlations (snd (snd (monitor_whale_activity second_run busy_monitor)))) =
   map (\<lambda>c. set (common_tokens c))
       (printed_correlations (snd (snd (monitor_whale_activity first_run fresh_monitor)))) \<and>
   map common_tokens
       (printed_correlations (snd (snd (monitor_whale_activity first_run fresh_monitor)))) =
     [[''PEPE'', ''UNI'']] \<and>
   map common_tokens
       (printed_correlations (snd (snd (monitor_whale_activity second_run busy_monitor)))) =
     [[''UNI'', ''PEPE'']]"
proof -
  have h: "fault first_run = None" "fault second_run = None" "fetch first_run = fetch second_run"
    "\<forall>xs. set (token_order first_run xs) = set xs"
    "\<forall>xs. set (token_order second_run xs) = set xs"
    by (simp_all add: first_run_def second_run_def)
  have f: "get_recent_whale_activity (fetch first_run) = pump_with_pair"
    "token_order first_run = id" "token_order second_run = rev"
    by (simp_all add: first_run_def second_run_def get_recent_whale_activity_def)
  note t = rerun_same_snapshot [OF h, of fresh_monitor busy_monitor]
  from t have a: "printed_alerts (snd (snd (monitor_whale_activity second_run busy_monitor))) =
     printed_alerts (snd (snd (monitor_whale_activity first_run fresh_monitor)))"
    by blast
  from t have "printed_alerts (snd (snd (monitor_whale_activity first_run fresh_monitor))) =
      detect_coordination_patterns pump_with_pair"
    unfolding f by blast
  then have b: "map alert_type
      (printed_alerts (snd (snd (monitor_whale_activity first_run fresh_monitor)))) =
     [POTENTIAL_PUMP]"
    by (simp add: detect_pump_with_pair)
  from t have c: "map (\<lambda>c. c\<lparr>common_tokens := []\<rparr>)
       (printed_correlations (snd (snd (monitor_whale_activity second_run busy_monitor)))) =
   map (\<lambda>c. c\<lparr>common_tokens := []\<rparr>)
       (printed_correlations (snd (snd (monitor_whale_activity first_run fresh_monitor))))"
    by blast
  from t have d: "map (\<lambda>c. set (common_tokens c))
       (printed_correlations (snd (snd (monitor_whale_activity second_run busy_monitor)))) =
   map (\<lambda>c. set (common_tokens c))
       (printed_correlations (snd (snd (monitor_whale_activity first_run fresh_monitor))))"
    by blast
  from t have "printed_correlations (snd (snd (monitor_whale_activity first_run fresh_monitor))) =
      analyze_wallet_correlations id pump_with_pair"
    "printed_correlations (snd (snd (monitor_whale_activity second_run busy_monitor))) =
      analyze_wallet_correlations rev pump_with_pair"
    unfolding f by blast+
  then have e: "map common_tokens
       (printed_correlations (snd (snd (monitor_whale_activity first_run fresh_monitor)))) =
     [[''PEPE'', ''UNI'']]"
    "map common_tokens
       (printed_correlations (snd (snd (monitor_whale_activity second_run busy_monitor)))) =
     [[''UNI'', ''PEPE'']]"
    by (simp_all add: analyze_pump_with_pair)
  from h run_results a b c d e show ?thesis
    by (intro conjI)
qed

end
